theory Spec2Isabelle
  imports Main
begin

section \<open>Data model of shell\_job\_scheduler.c\<close>

text \<open>
  The constants of the source. \<open>MAX_JOBS\<close> is the number of slots of the global array
  \<open>jobs\<close>, \<open>MAX_LINE\<close> the size of every command buffer.
\<close>

definition MAX_LINE :: nat where
  "MAX_LINE = 1024"

definition MAX_JOBS :: nat where
  "MAX_JOBS = 100"

datatype job_state_t = RUNNING | STOPPED | DONE

text \<open>
  \<open>job_id\<close>, \<open>pid\<close>, \<open>next_job_id\<close> and \<open>fg_pid\<close> are C \<open>int\<close>s of 32 bits. They are modelled
  as integers, and \<open>c_int\<close> is written where the code computes or converts to an \<open>int\<close>:
  it is the value that fits in 32 bits in two's complement. \<open>next_job_id++\<close> beyond
  \<open>INT_MAX\<close> is undefined in C; the compiled code wraps around, and so does the model.
  \<open>command\<close> is the C string held in the \<open>char[MAX_LINE]\<close> buffer.
\<close>

definition INT_MAX :: int where
  "INT_MAX = 2147483647"

definition c_int :: "int \<Rightarrow> int" where
  "c_int x = (x + 2147483648) mod 4294967296 - 2147483648"

record job_t =
  job_id :: int
  pid :: int
  state :: job_state_t
  command :: string

text \<open>What the shell asks of the kernel, and what the kernel answers.\<close>

datatype signal = SIGINT | SIGTSTP | SIGCONT | SIGKILL

datatype errno = ECHILD | EINTR | EINVAL

text \<open>
  The status classes \<open>waitpid\<close> can report when called with \<open>WUNTRACED\<close> and without
  \<open>WCONTINUED\<close>: exactly one of \<open>WIFEXITED\<close>, \<open>WIFSIGNALED\<close>, \<open>WIFSTOPPED\<close> holds.
\<close>

datatype wstatus = Exited | Signaled | Stopped

datatype wait_result = Status wstatus | Failed errno

text \<open>
  The global variables of the shell, and its effects on the outside world as logs:
  \<^item> \<open>jobs\<close> is the whole array of \<open>MAX_JOBS\<close> slots, stale slots included; the live table
    is its first \<open>job_count\<close> slots (\<open>job_count\<close> never leaves \<open>0..MAX_JOBS\<close>, so it is a
    \<open>nat\<close>);
  \<^item> \<open>out\<close> is standard output, one element per \<open>printf\<close> call;
  \<^item> \<open>err\<close> is standard error, one element per \<open>perror\<close> call (its prefix and \<open>errno\<close>);
  \<^item> \<open>sent\<close> is the list of \<open>kill(pid, sig)\<close> calls made;
  \<^item> \<open>assigned\<close> is a history variable, not a variable of the program: the job ids handed
    out by \<open>add_job\<close> so far, oldest first.
\<close>

record shell =
  jobs :: "job_t list"
  job_count :: nat
  next_job_id :: int
  fg_pid :: int
  out :: "string list"
  err :: "(string \<times> errno) list"
  sent :: "(int \<times> signal) list"
  assigned :: "int list"

definition table :: "shell \<Rightarrow> job_t list" where
  "table s = take (job_count s) (jobs s)"

definition zero_job :: job_t where
  "zero_job = \<lparr>job_id = 0, pid = 0, state = RUNNING, command = []\<rparr>"

text \<open>The state after \<open>init_shell\<close>: the initialisers of the globals and the \<open>memset\<close>.\<close>

definition init_shell :: shell where
  "init_shell = \<lparr>jobs = replicate MAX_JOBS zero_job, job_count = 0, next_job_id = 1,
     fg_pid = 0, out = [], err = [], sent = [], assigned = []\<rparr>"

definition printf :: "string \<Rightarrow> shell \<Rightarrow> shell" where
  "printf str s = s\<lparr>out := out s @ [str]\<rparr>"

definition perror :: "string \<Rightarrow> errno \<Rightarrow> shell \<Rightarrow> shell" where
  "perror str e s = s\<lparr>err := err s @ [(str, e)]\<rparr>"

definition kill :: "int \<Rightarrow> signal \<Rightarrow> shell \<Rightarrow> shell" where
  "kill p sg s = s\<lparr>sent := sent s @ [(p, sg)]\<rparr>"

section \<open>The job table\<close>

text \<open>
  The search loop shared by \<open>find_job_by_pid\<close>, \<open>find_job_by_id\<close> and \<open>remove_job\<close>:
  \<^verbatim>\<open>for (int i = 0; i < job_count; i++) if (P(jobs[i])) return &jobs[i]; return NULL;\<close>
  A pointer into the array is the index of its slot.
\<close>

function find_from :: "(job_t \<Rightarrow> bool) \<Rightarrow> job_t list \<Rightarrow> nat \<Rightarrow> nat \<Rightarrow> nat option" where
  "find_from P js n i =
     (if i < n then (if P (js ! i) then Some i else find_from P js n (Suc i)) else None)"
  by pat_completeness auto
termination
  by (relation "measure (\<lambda>(P, js, n, i). n - i)") auto

declare find_from.simps [simp del]

definition find_job_by_pid :: "int \<Rightarrow> shell \<Rightarrow> nat option" where
  "find_job_by_pid p s = find_from (\<lambda>j. pid j = p) (jobs s) (job_count s) 0"

definition find_job_by_id :: "int \<Rightarrow> shell \<Rightarrow> nat option" where
  "find_job_by_id n s = find_from (\<lambda>j. job_id j = n) (jobs s) (job_count s) 0"

text \<open>
  \<open>add_job\<close>, statement by statement (lines 193 to 197 of the source); every statement
  reads \<open>job_count\<close> again for its index. \<open>strncpy(dst, command, MAX_LINE - 1)\<close> writes the
  first \<open>MAX_LINE - 1\<close> bytes of the slot's buffer (the command, cut or padded with zero
  bytes); the last byte of every buffer is zero from the \<open>memset\<close> on, so the stored
  string is the command cut to \<open>MAX_LINE - 1\<close> characters.
\<close>

definition add_job_193 :: "shell \<Rightarrow> shell" where
  "add_job_193 s =
     s\<lparr>jobs := (jobs s)[job_count s := (jobs s ! job_count s)\<lparr>job_id := next_job_id s\<rparr>],
       next_job_id := c_int (next_job_id s + 1),
       assigned := assigned s @ [next_job_id s]\<rparr>"

definition add_job_194 :: "int \<Rightarrow> shell \<Rightarrow> shell" where
  "add_job_194 p s = s\<lparr>jobs := (jobs s)[job_count s := (jobs s ! job_count s)\<lparr>pid := p\<rparr>]\<rparr>"

definition add_job_195 :: "job_state_t \<Rightarrow> shell \<Rightarrow> shell" where
  "add_job_195 st s =
     s\<lparr>jobs := (jobs s)[job_count s := (jobs s ! job_count s)\<lparr>state := st\<rparr>]\<rparr>"

definition add_job_196 :: "string \<Rightarrow> shell \<Rightarrow> shell" where
  "add_job_196 cmd s =
     s\<lparr>jobs := (jobs s)[job_count s :=
            (jobs s ! job_count s)\<lparr>command := take (MAX_LINE - 1) cmd\<rparr>]\<rparr>"

definition add_job_197 :: "shell \<Rightarrow> shell" where
  "add_job_197 s = s\<lparr>job_count := job_count s + 1\<rparr>"

definition add_job :: "int \<Rightarrow> string \<Rightarrow> job_state_t \<Rightarrow> shell \<Rightarrow> shell" where
  "add_job p cmd st s =
     (if job_count s \<ge> MAX_JOBS then printf ''Job queue full\<newline>'' s
      else add_job_197 (add_job_196 cmd (add_job_195 st (add_job_194 p (add_job_193 s)))))"

text \<open>
  \<open>remove_job\<close>: its outer loop is the search loop above, for the first slot with the
  pid; there the inner loop
  \<^verbatim>\<open>for (int j = i; j < job_count - 1; j++) jobs[j] = jobs[j + 1];\<close>
  moves the later entries down, \<open>job_count\<close> is decremented (it is at least 1 there) and
  the search ends. The slot that was the last live one keeps its old content.
\<close>

function shift_jobs :: "nat \<Rightarrow> nat \<Rightarrow> job_t list \<Rightarrow> job_t list" where
  "shift_jobs j n js =
     (if j + 1 < n then shift_jobs (j + 1) n (js[j := js ! (j + 1)]) else js)"
  by pat_completeness auto
termination
  by (relation "measure (\<lambda>(j, n, js). n - j)") auto

declare shift_jobs.simps [simp del]

definition remove_job :: "int \<Rightarrow> shell \<Rightarrow> shell" where
  "remove_job p s =
     (case find_from (\<lambda>j. pid j = p) (jobs s) (job_count s) 0 of
        None \<Rightarrow> s
      | Some i \<Rightarrow> s\<lparr>jobs := shift_jobs i (job_count s) (jobs s),
                    job_count := job_count s - 1\<rparr>)"

definition update_job_state :: "int \<Rightarrow> job_state_t \<Rightarrow> shell \<Rightarrow> shell" where
  "update_job_state p st s =
     (case find_job_by_pid p s of
        None \<Rightarrow> s
      | Some i \<Rightarrow> s\<lparr>jobs := (jobs s)[i := (jobs s ! i)\<lparr>state := st\<rparr>]\<rparr>)"

section \<open>Library functions the shell calls\<close>

text \<open>
  \<open>printf\<close>'s \<open>%d\<close>: the decimal digits of an \<open>int\<close>, with a minus sign when negative.
\<close>

definition digit_char :: "nat \<Rightarrow> char" where
  "digit_char d = ''0123456789'' ! d"

fun show_nat :: "nat \<Rightarrow> string" where
  "show_nat n =
     (if n < 10 then [digit_char n] else show_nat (n div 10) @ [digit_char (n mod 10)])"

declare show_nat.simps [simp del]

definition show_int :: "int \<Rightarrow> string" where
  "show_int i = (if i < 0 then CHR ''-'' # show_nat (nat (- i)) else show_nat (nat i))"

text \<open>
  \<open>atoi\<close> of the C library, as glibc has it where \<open>long\<close> has 64 bits:
  \<open>(int) strtol(str, NULL, 10)\<close>. \<open>strtol\<close> skips leading white space, reads an optional
  sign and then the longest run of decimal digits (with no digit there, the result is
  0), and gives \<open>LONG_MAX\<close> or \<open>LONG_MIN\<close> for a value out of the range of \<open>long\<close>; the
  conversion to \<open>int\<close> keeps the low 32 bits.
\<close>

definition isspace :: "char \<Rightarrow> bool" where
  "isspace c \<longleftrightarrow> c \<in> set [CHR '' '', CHR 0x09, CHR 0x0A, CHR 0x0B, CHR 0x0C, CHR 0x0D]"

definition isdigit :: "char \<Rightarrow> bool" where
  "isdigit c \<longleftrightarrow> c \<in> set ''0123456789''"

definition digit_val :: "char \<Rightarrow> int" where
  "digit_val c = int (of_char c) - 48"

fun atoi_digits :: "int \<Rightarrow> string \<Rightarrow> int" where
  "atoi_digits acc [] = acc"
| "atoi_digits acc (c # cs) =
     (if isdigit c then atoi_digits (10 * acc + digit_val c) cs else acc)"

definition LONG_MAX :: int where
  "LONG_MAX = 9223372036854775807"

definition LONG_MIN :: int where
  "LONG_MIN = - 9223372036854775808"

definition long_range :: "int \<Rightarrow> int" where
  "long_range x = (if x > LONG_MAX then LONG_MAX else if x < LONG_MIN then LONG_MIN else x)"

definition strtol :: "string \<Rightarrow> int" where
  "strtol str =
     long_range
       (case dropWhile isspace str of
          [] \<Rightarrow> 0
        | c # cs \<Rightarrow>
            if c = CHR ''-'' then - atoi_digits 0 cs
            else if c = CHR ''+'' then atoi_digits 0 cs
            else atoi_digits 0 (c # cs))"

definition atoi :: "string \<Rightarrow> int" where
  "atoi str = c_int (strtol str)"

section \<open>Signal handlers\<close>

text \<open>
  One round of the loop of \<open>sigchld_handler\<close>, for the child \<open>p\<close> and the status class
  \<open>waitpid(-1, &status, WNOHANG | WUNTRACED)\<close> returned. \<open>job\<close> is the pointer found
  before the branch; the notices read \<open>job->job_id\<close> and \<open>job->command\<close> through it, and
  the promotion notice reads \<open>jobs[job_count-1].job_id\<close> after \<open>add_job\<close> (\<open>job_count\<close> is
  at least 1 then: \<open>add_job\<close> has inserted, or the table is full).
\<close>

definition done_notice :: "job_t \<Rightarrow> string" where
  "done_notice j = ''\<newline>['' @ show_int (job_id j) @ ''] Done: '' @ command j @ ''\<newline>''"

definition stopped_notice :: "job_t \<Rightarrow> string" where
  "stopped_notice j = ''\<newline>['' @ show_int (job_id j) @ ''] Stopped: '' @ command j @ ''\<newline>''"

definition promoted_notice :: "int \<Rightarrow> string" where
  "promoted_notice n =
     ''\<newline>['' @ show_int n @ ''] Stopped (use 'fg '' @ show_int n @ ''' to resume)\<newline>''"

definition reap :: "int \<Rightarrow> wstatus \<Rightarrow> shell \<Rightarrow> shell" where
  "reap p st s =
     (let job = find_job_by_pid p s in
      if st = Exited \<or> st = Signaled then
        (case job of
           Some i \<Rightarrow> remove_job p (printf ''shell> '' (printf (done_notice (jobs s ! i)) s))
         | None \<Rightarrow> s)
      else if st = Stopped then
        (case job of
           Some i \<Rightarrow>
             let s1 = update_job_state p STOPPED s in
             printf ''shell> '' (printf (stopped_notice (jobs s1 ! i)) s1)
         | None \<Rightarrow>
             let s1 = add_job p ''(foreground job)'' STOPPED s in
             printf ''shell> ''
               (printf (promoted_notice (job_id (jobs s1 ! (job_count s1 - 1)))) s1))
      else s)"

text \<open>
  \<open>sigchld_handler\<close>: the argument is the list of answers of the successive \<open>waitpid\<close>
  calls of one run of the handler; the loop goes on while the answer is a pid \<open>> 0\<close>,
  and ends when the kernel has no further child to report (the end of the list).
\<close>

fun sigchld_handler :: "(int \<times> wstatus) list \<Rightarrow> shell \<Rightarrow> shell" where
  "sigchld_handler [] s = s"
| "sigchld_handler ((p, st) # evs) s =
     (if p > 0 then sigchld_handler evs (reap p st s) else s)"

definition sigint_handler :: "shell \<Rightarrow> shell" where
  "sigint_handler s =
     printf ''\<newline>'' (if fg_pid s > 0 then kill (fg_pid s) SIGINT s else s)"

definition sigtstp_handler :: "shell \<Rightarrow> shell" where
  "sigtstp_handler s = (if fg_pid s > 0 then kill (fg_pid s) SIGTSTP s else s)"

text \<open>A signal delivered to the shell: which handler runs, and for \<open>SIGCHLD\<close> what it reaps.\<close>

datatype delivery = Child "(int \<times> wstatus) list" | Interrupt | Suspend

fun deliver :: "delivery \<Rightarrow> shell \<Rightarrow> shell" where
  "deliver (Child evs) s = sigchld_handler evs s"
| "deliver Interrupt s = sigint_handler s"
| "deliver Suspend s = sigtstp_handler s"

text \<open>
  The shell installs its handlers with \<open>signal\<close> and never blocks a signal, so a handler
  can also run between two statements of \<open>add_job\<close>. \<open>add_job_signals\<close> is \<open>add_job\<close> with
  the signals delivered in the four gaps between lines 193 and 197: \<open>gap n dss\<close> are the
  signals of gap \<open>n\<close>, none when \<open>dss\<close> is shorter. (The statements are followed while the
  index \<open>job_count\<close> stays inside the array.)
\<close>

definition gap :: "nat \<Rightarrow> delivery list list \<Rightarrow> delivery list" where
  "gap n dss = (if n < length dss then dss ! n else [])"

definition add_job_signals ::
  "delivery list list \<Rightarrow> int \<Rightarrow> string \<Rightarrow> job_state_t \<Rightarrow> shell \<Rightarrow> shell" where
  "add_job_signals dss p cmd st s =
     (if job_count s \<ge> MAX_JOBS then printf ''Job queue full\<newline>'' s
      else add_job_197 (fold deliver (gap 3 dss)
            (add_job_196 cmd (fold deliver (gap 2 dss)
              (add_job_195 st (fold deliver (gap 1 dss)
                (add_job_194 p (fold deliver (gap 0 dss)
                  (add_job_193 s)))))))))"

section \<open>The foreground wait and the commands\<close>

text \<open>
  The answers of the kernel during one command: what \<open>fork\<close> returns (and \<open>errno\<close> when it
  fails), whether \<open>execvp\<close> fails in the child, the signals delivered while
  \<open>execute_command\<close> runs \<open>add_job\<close> (gap by gap), the signals delivered while the shell is
  blocked in \<open>waitpid\<close>, and what that \<open>waitpid\<close> returns. A command is \<open>calm\<close> when no
  signal arrives inside \<open>add_job\<close>. Signals that interrupt other statements of a command
  (the loops of \<open>remove_job\<close> and of the searches, the steps between a search and the
  use of its result) are not followed.
\<close>

record kernel =
  fork_ret :: int
  fork_errno :: errno
  execvp_fails :: bool
  in_add_job :: "delivery list list"
  deliveries :: "delivery list"
  waitpid_ret :: wait_result

definition calm :: "kernel \<Rightarrow> bool" where
  "calm k \<longleftrightarrow> concat (in_add_job k) = []"

text \<open>
  \<open>wait_for_fg\<close> in three steps: \<open>fg_pid = pid\<close>; the shell blocked in \<open>waitpid\<close> while
  handlers run; the return of \<open>waitpid\<close>, with \<open>perror\<close> when it failed with an \<open>errno\<close>
  other than \<open>ECHILD\<close>, and \<open>fg_pid = 0\<close>. \<open>waitpid\<close> is called once.
\<close>

definition wait_begin :: "int \<Rightarrow> shell \<Rightarrow> shell" where
  "wait_begin p s = s\<lparr>fg_pid := p\<rparr>"

definition wait_end :: "wait_result \<Rightarrow> shell \<Rightarrow> shell" where
  "wait_end r s =
     (case r of
        Status st \<Rightarrow> s
      | Failed e \<Rightarrow> if e \<noteq> ECHILD then perror ''waitpid error'' e s else s)\<lparr>fg_pid := 0\<rparr>"

definition wait_for_fg :: "int \<Rightarrow> kernel \<Rightarrow> shell \<Rightarrow> shell" where
  "wait_for_fg p k s = wait_end (waitpid_ret k) (fold deliver (deliveries k) (wait_begin p s))"

text \<open>
  How a function of the shell ends: it returns, or the process exits, or (in the child)
  \<open>execvp\<close> replaces the process image.
\<close>

datatype result = Return int shell | Exit int shell | Exec string "string list"

definition state_str :: "job_state_t \<Rightarrow> string" where
  "state_str st = (case st of RUNNING \<Rightarrow> ''Running'' | STOPPED \<Rightarrow> ''Stopped'' | DONE \<Rightarrow> ''Done'')"

definition job_row :: "job_t \<Rightarrow> string" where
  "job_row j = ''['' @ show_int (job_id j) @ '']     '' @ show_int (pid j) @ ''     '' @
     state_str (state j) @ ''   '' @ command j @ ''\<newline>''"

definition list_jobs :: "shell \<Rightarrow> shell" where
  "list_jobs s =
     (if job_count s = 0 then printf ''No jobs\<newline>'' s
      else printf ''\<newline>''
        (fold (\<lambda>i. printf (job_row (jobs s ! i))) [0..<job_count s]
          (printf ''------  ------  --------  -------\<newline>''
            (printf ''\<newline>Job ID  PID     State     Command\<newline>'' s))))"

definition not_found :: "int \<Rightarrow> string" where
  "not_found n = ''Job ['' @ show_int n @ ''] not found\<newline>''"

text \<open>
  The \<open>fg\<close> branch of \<open>builtin_command\<close>, from \<open>atoi\<close> on. \<open>job\<close> is a pointer to a slot:
  \<open>job->pid\<close> is read from slot \<open>i\<close> again after the wait, whatever the handlers have moved
  into it meanwhile.
\<close>

definition fg_announce :: "int \<Rightarrow> nat \<Rightarrow> shell \<Rightarrow> shell" where
  "fg_announce n i s =
     printf (''Bringing job ['' @ show_int n @ ''] to foreground: '' @ command (jobs s ! i) @
             ''\<newline>'')
       (if state (jobs s ! i) = STOPPED then kill (pid (jobs s ! i)) SIGCONT s else s)"

definition builtin_fg :: "int \<Rightarrow> kernel \<Rightarrow> shell \<Rightarrow> result" where
  "builtin_fg n k s =
     (case find_job_by_id n s of
        None \<Rightarrow> Return 1 (printf (not_found n) s)
      | Some i \<Rightarrow>
          let s1 = fg_announce n i s;
              s2 = wait_for_fg (pid (jobs s1 ! i)) k s1
          in Return 1 (remove_job (pid (jobs s2 ! i)) s2))"

definition builtin_bg :: "int \<Rightarrow> shell \<Rightarrow> result" where
  "builtin_bg n s =
     (case find_job_by_id n s of
        None \<Rightarrow> Return 1 (printf (not_found n) s)
      | Some i \<Rightarrow>
          if state (jobs s ! i) = STOPPED then
            Return 1
              (printf (''Job ['' @ show_int n @ ''] continued in background: '' @
                       command (jobs s ! i) @ ''\<newline>'')
                ((kill (pid (jobs s ! i)) SIGCONT s)
                   \<lparr>jobs := (jobs s)[i := (jobs s ! i)\<lparr>state := RUNNING\<rparr>]\<rparr>))
          else Return 1 (printf (''Job ['' @ show_int n @ ''] is already running\<newline>'') s))"

definition builtin_kill :: "int \<Rightarrow> shell \<Rightarrow> result" where
  "builtin_kill n s =
     (case find_job_by_id n s of
        None \<Rightarrow> Return 1 (printf (not_found n) s)
      | Some i \<Rightarrow>
          Return 1 (printf (''Job ['' @ show_int n @ ''] terminated\<newline>'')
                     (kill (pid (jobs s ! i)) SIGKILL s)))"

definition help_text :: "string list" where
  "help_text =
     [''\<newline>Available commands:\<newline>'',
      ''  <command> &     - Run command in background\<newline>'',
      ''  jobs            - List all jobs\<newline>'',
      ''  fg <job_id>     - Bring job to foreground\<newline>'',
      ''  bg <job_id>     - Continue stopped job in background\<newline>'',
      ''  kill <job_id>   - Terminate a job\<newline>'',
      ''  quit/exit       - Exit shell\<newline>'',
      ''  Ctrl+C          - Interrupt foreground job\<newline>'',
      ''  Ctrl+Z          - Suspend foreground job\<newline>\<newline>'']"

text \<open>
  \<open>builtin_command\<close>. \<open>args\<close> is the argument vector up to its \<open>NULL\<close>: \<open>args[0] == NULL\<close> is
  the empty list, \<open>args[1] == NULL\<close> a list of one element.
\<close>

definition builtin_command :: "string list \<Rightarrow> kernel \<Rightarrow> shell \<Rightarrow> result" where
  "builtin_command args k s =
     (case args of
        [] \<Rightarrow> Return 0 s
      | a0 # rest \<Rightarrow>
          if a0 = ''quit'' \<or> a0 = ''exit'' then Exit 0 s
          else if a0 = ''jobs'' then Return 1 (list_jobs s)
          else if a0 = ''fg'' then
            (case rest of
               [] \<Rightarrow> Return 1 (printf ''Usage: fg <job_id>\<newline>'' s)
             | a1 # _ \<Rightarrow> builtin_fg (atoi a1) k s)
          else if a0 = ''bg'' then
            (case rest of
               [] \<Rightarrow> Return 1 (printf ''Usage: bg <job_id>\<newline>'' s)
             | a1 # _ \<Rightarrow> builtin_bg (atoi a1) s)
          else if a0 = ''kill'' then
            (case rest of
               [] \<Rightarrow> Return 1 (printf ''Usage: kill <job_id>\<newline>'' s)
             | a1 # _ \<Rightarrow> builtin_kill (atoi a1) s)
          else if a0 = ''help'' then Return 1 (fold printf help_text s)
          else Return 0 s)"

text \<open>
  \<open>execute_command\<close>. In the child (\<open>fork\<close> returned 0) the signal dispositions are
  reset and the process group is set, which the model does not follow; \<open>execvp\<close> then
  replaces the image or fails. In the parent a background command is joined with a
  space after every argument (\<open>cmd\<close> has \<open>MAX_LINE\<close> bytes: the model is the code for
  commands that fit) and handed to \<open>add_job\<close>, during which the signals of
  \<open>in_add_job\<close> arrive; the notice reads \<open>jobs[job_count-1].job_id\<close>, whether or not
  \<open>add_job\<close> has inserted.
\<close>

definition execute_command :: "string list \<Rightarrow> bool \<Rightarrow> kernel \<Rightarrow> shell \<Rightarrow> result" where
  "execute_command args background k s =
     (case args of
        [] \<Rightarrow> Return 1 s
      | a0 # _ \<Rightarrow>
          if fork_ret k < 0 then Return 0 (perror ''fork error'' (fork_errno k) s)
          else if fork_ret k = 0 then
            (if execvp_fails k
             then Exit 1 (printf (''Command not found: '' @ a0 @ ''\<newline>'') s)
             else Exec a0 args)
          else if background then
            (let cmd = concat (map (\<lambda>a. a @ '' '') args);
                 s1 = add_job_signals (in_add_job k) (fork_ret k) cmd RUNNING s
             in Return 1
                  (printf (''['' @ show_int (job_id (jobs s1 ! (job_count s1 - 1))) @ ''] '' @
                           show_int (fork_ret k) @ '' '' @ cmd @ ''\<newline>'') s1))
          else Return 1 (wait_for_fg (fork_ret k) k s))"

section \<open>Calm executions\<close>

text \<open>
  Where the shell is: at the prompt (between two commands), or inside \<open>wait_for_fg\<close>,
  blocked in \<open>waitpid\<close> on a child. The second argument of \<open>Waiting\<close> says who called:
  \<open>Some i\<close> is the \<open>fg\<close> branch holding the pointer to slot \<open>i\<close>, \<open>None\<close> is
  \<open>execute_command\<close>.
\<close>

datatype pc = Prompt | Waiting int "nat option"

text \<open>
  The states the shell reaches in a calm execution: one in which every signal handler
  runs while the shell is suspended, at the prompt (in \<open>fgets\<close>) or in the blocking
  \<open>waitpid\<close>, and never in the middle of a command. The code does not enforce this (it
  blocks no signal), so the relation leaves out states that the shell can reach; it is
  the hypothesis of the statements below that hold for calm executions only, and it
  shows that a state can be reached.

  The command lines and the answers of the kernel are arbitrary. The loop of \<open>main\<close>
  reads a line, has \<open>parse_command\<close> split it into \<open>args\<close> and the background flag, and
  calls \<open>builtin_command\<close> and, when that returns 0, \<open>execute_command\<close>; the rules take
  every argument vector and every flag, which covers what \<open>parse_command\<close> can produce.
  At the prompt a command runs to its return (\<open>builtin\<close>, \<open>external\<close>); the other rules
  follow a foreground wait step by step, so that the states inside the wait are there
  too: \<open>fg_blocks\<close> and \<open>exec_blocks\<close> are the two calls of \<open>wait_for_fg\<close> up to
  \<open>fg_pid = pid\<close> (in \<open>execute_command\<close> the pid is what \<open>fork\<close> returned to the parent, so
  it is positive), \<open>fg_returns\<close> and \<open>exec_returns\<close> are the return of \<open>waitpid\<close> and what
  the caller does next. A signal can be delivered in each of these states.
\<close>

inductive reachable_calm :: "pc \<Rightarrow> shell \<Rightarrow> bool" where
  start: "reachable_calm Prompt init_shell"
| signal: "reachable_calm c s \<Longrightarrow> reachable_calm c (deliver d s)"
| builtin:
    "reachable_calm Prompt s \<Longrightarrow> builtin_command args k s = Return n s' \<Longrightarrow>
     reachable_calm Prompt s'"
| external:
    "reachable_calm Prompt s \<Longrightarrow> calm k \<Longrightarrow>
     execute_command args background k s = Return n s' \<Longrightarrow> reachable_calm Prompt s'"
| fg_blocks:
    "reachable_calm Prompt s \<Longrightarrow> find_job_by_id n s = Some i \<Longrightarrow> s1 = fg_announce n i s \<Longrightarrow>
     reachable_calm (Waiting (pid (jobs s1 ! i)) (Some i)) (wait_begin (pid (jobs s1 ! i)) s1)"
| fg_returns:
    "reachable_calm (Waiting p (Some i)) s \<Longrightarrow> s2 = wait_end r s \<Longrightarrow>
     reachable_calm Prompt (remove_job (pid (jobs s2 ! i)) s2)"
| exec_blocks:
    "reachable_calm Prompt s \<Longrightarrow> 0 < p \<Longrightarrow> reachable_calm (Waiting p None) (wait_begin p s)"
| exec_returns: "reachable_calm (Waiting p None) s \<Longrightarrow> reachable_calm Prompt (wait_end r s)"

section \<open>Invariants\<close>

text \<open>
  \<open>few_jobs\<close>: fewer than \<open>INT_MAX\<close> jobs have been inserted so far, so that
  \<open>next_job_id\<close> has not wrapped around.
\<close>

definition few_jobs :: "shell \<Rightarrow> bool" where
  "few_jobs s \<longleftrightarrow> int (length (assigned s)) < INT_MAX"

text \<open>
  The job ids: those of the live entries increase strictly along the table and lie
  between 1 and the counter; the ids handed out so far increase strictly and lie below
  the counter, which is one more than their number.
\<close>

definition ids_ok :: "shell \<Rightarrow> bool" where
  "ids_ok s \<longleftrightarrow>
     sorted_wrt (<) (map job_id (table s)) \<and>
     list_all (\<lambda>j. 1 \<le> job_id j \<and> job_id j < next_job_id s) (table s) \<and>
     1 + int (length (assigned s)) = next_job_id s \<and> sorted_wrt (<) (assigned s) \<and>
     list_all (\<lambda>a. 1 \<le> a \<and> a < next_job_id s) (assigned s) \<and>
     set (map job_id (table s)) \<subseteq> set (assigned s)"

text \<open>
  The invariant of the table in calm executions: the array has its \<open>MAX_JOBS\<close> slots,
  \<open>job_count\<close> is in range and every live pid is positive; and the job ids are as above
  while few jobs have been inserted.
\<close>

definition table_inv :: "shell \<Rightarrow> bool" where
  "table_inv s \<longleftrightarrow>
     length (jobs s) = MAX_JOBS \<and> job_count s \<le> MAX_JOBS \<and>
     list_all (\<lambda>j. 0 < pid j) (table s) \<and> (few_jobs s \<longrightarrow> ids_ok s)"

text \<open>
  The invariant of \<open>fg_pid\<close>: 0 at the prompt, and inside a wait the pid of the child
  waited for, which is positive.
\<close>

definition fg_inv :: "pc \<Rightarrow> shell \<Rightarrow> bool" where
  "fg_inv c s \<longleftrightarrow> (case c of Prompt \<Rightarrow> fg_pid s = 0 | Waiting p ptr \<Rightarrow> fg_pid s = p \<and> 0 < p)"

text \<open>The variables of the program, without the logs of its output.\<close>

definition vars :: "shell \<Rightarrow> job_t list \<times> nat \<times> int \<times> int \<times> int list" where
  "vars s = (jobs s, job_count s, next_job_id s, fg_pid s, assigned s)"

text \<open>
  A token in which \<open>atoi\<close> finds no digit to read: after the white space and an optional
  sign, the token ends or goes on with a character that is not a decimal digit.
\<close>

definition no_digits :: "string \<Rightarrow> bool" where
  "no_digits tok =
     (case dropWhile isspace tok of
        [] \<Rightarrow> True
      | c # cs \<Rightarrow>
          if c = CHR ''-'' \<or> c = CHR ''+'' then (case cs of [] \<Rightarrow> True | d # _ \<Rightarrow> \<not> isdigit d)
          else \<not> isdigit c)"

section \<open>Example states\<close>

text \<open>
  Example states used to run the definitions: a table of three jobs in an array of
  \<open>MAX_JOBS\<close> slots.
\<close>

definition job1 :: job_t where
  "job1 = \<lparr>job_id = 1, pid = 4001, state = RUNNING, command = ''sleep 30 ''\<rparr>"

definition job2 :: job_t where
  "job2 = \<lparr>job_id = 2, pid = 4002, state = STOPPED, command = ''(foreground job)''\<rparr>"

definition job3 :: job_t where
  "job3 = \<lparr>job_id = 3, pid = 4003, state = RUNNING, command = ''sleep 60 ''\<rparr>"

definition three_jobs :: shell where
  "three_jobs = \<lparr>jobs = [job1, job2, job3] @ replicate 97 zero_job, job_count = 3,
     next_job_id = 4, fg_pid = 0, out = [], err = [], sent = [], assigned = [1, 2, 3]\<rparr>"

text \<open>Kernels for the examples: no signal during the wait, a given answer of \<open>waitpid\<close>.\<close>

definition quiet :: "wait_result \<Rightarrow> kernel" where
  "quiet r = \<lparr>fork_ret = 0, fork_errno = EINVAL, execvp_fails = False, in_add_job = [],
     deliveries = [], waitpid_ret = r\<rparr>"

text \<open>
  The session that fills the table: \<open>sleep 100 &\<close> entered again and again, the child
  number \<open>n\<close> getting pid \<open>5000 + n\<close> from \<open>fork\<close>. \<open>spawned n\<close> is the state after \<open>n\<close>
  of these lines.
\<close>

definition forked :: "int \<Rightarrow> kernel" where
  "forked p = \<lparr>fork_ret = p, fork_errno = EINVAL, execvp_fails = False, in_add_job = [],
     deliveries = [], waitpid_ret = Status Exited\<rparr>"

definition sleeper :: "nat \<Rightarrow> job_t" where
  "sleeper n = \<lparr>job_id = int n + 1, pid = 5000 + int n, state = RUNNING,
     command = ''sleep 100 ''\<rparr>"

definition spawn_notice :: "nat \<Rightarrow> string" where
  "spawn_notice n =
     ''['' @ show_int (int n + 1) @ ''] '' @ show_int (5000 + int n) @ '' sleep 100 \<newline>''"

definition spawned :: "nat \<Rightarrow> shell" where
  "spawned n = \<lparr>jobs = map sleeper [0..<n] @ replicate (MAX_JOBS - n) zero_job,
     job_count = n, next_job_id = int n + 1, fg_pid = 0, out = map spawn_notice [0..<n],
     err = [], sent = [], assigned = map (\<lambda>m. int m + 1) [0..<n]\<rparr>"

definition full_table :: shell where
  "full_table = spawned MAX_JOBS"

text \<open>
  A session for the examples: two background jobs are spawned, then the first one exits
  and the handler reaps it.
\<close>

definition first_done :: shell where
  "first_done = deliver (Child [(5000, Exited)]) (spawned 2)"

text \<open>
  Two commands during which a \<open>SIGCHLD\<close> arrives inside \<open>add_job\<close>. In the first the shell
  has the three jobs of \<open>spawned 3\<close> and runs \<open>sleep 5 &\<close>, the child getting pid 5003; the
  first job exits and is reaped right after line 193. In the second the shell has no job
  and runs \<open>cat &\<close>, the child getting pid 5000; the child stops and is reaped between
  lines 196 and 197. \<open>raced_3\<close> is the state after the first command, \<open>raced\<close> the state
  after the second. (\<open>state_after r s\<close> is the state with which a command run in state \<open>s\<close>
  has returned.)
\<close>

definition state_after :: "result \<Rightarrow> shell \<Rightarrow> shell" where
  "state_after r s = (case r of Return n s' \<Rightarrow> s' | Exit n s' \<Rightarrow> s' | Exec file args \<Rightarrow> s)"

definition reaped_in_add_job :: kernel where
  "reaped_in_add_job = (forked 5003)\<lparr>in_add_job := [[Child [(5000, Exited)]]]\<rparr>"

definition raced_3 :: shell where
  "raced_3 =
     state_after (execute_command [''sleep'', ''5''] True reaped_in_add_job (spawned 3)) (spawned 3)"

definition stopped_in_add_job :: kernel where
  "stopped_in_add_job = (forked 5000)\<lparr>in_add_job := [[], [], [], [Child [(5000, Stopped)]]]\<rparr>"

definition raced :: shell where
  "raced = \<lparr>jobs = \<lparr>job_id = 2, pid = 5000, state = STOPPED, command = ''(foreground job)''\<rparr> #
               replicate 99 zero_job,
     job_count = 2, next_job_id = 3, fg_pid = 0,
     out = [promoted_notice 2, ''shell> '', ''[0] 5000 cat \<newline>''],
     err = [], sent = [], assigned = [1, 2]\<rparr>"

text \<open>
  A long session: \<open>true &\<close> is entered, the child gets pid 5000, exits and is reaped at
  the prompt, and so on; \<open>churn n\<close> is the state after \<open>n\<close> rounds. \<open>overflowed\<close> and
  \<open>wrapped\<close> are the states after one more \<open>true &\<close> when \<open>INT_MAX - 1\<close> and when
  \<open>2^32 - 1\<close> jobs have come and gone.
\<close>

primrec churn :: "nat \<Rightarrow> shell" where
  "churn 0 = init_shell"
| "churn (Suc n) =
     deliver (Child [(5000, Exited)])
       (state_after (execute_command [''true''] True (forked 5000) (churn n)) (churn n))"

definition overflowed :: shell where
  "overflowed =
     state_after (execute_command [''true''] True (forked 5000) (churn 2147483646))
       (churn 2147483646)"

definition wrapped :: shell where
  "wrapped =
     state_after (execute_command [''true''] True (forked 5000) (churn 4294967295))
       (churn 4294967295)"


section \<open>Properties of the table operations and of atoi\<close>

lemmas atoi_eval = atoi_def strtol_def long_range_def LONG_MAX_def LONG_MIN_def c_int_def
  isspace_def isdigit_def digit_val_def

lemma find_from_None:
  "find_from P js n i = None \<longleftrightarrow> (\<forall>k. i \<le> k \<and> k < n \<longrightarrow> \<not> P (js ! k))"
proof (induction P js n i rule: find_from.induct)
  case (1 P js n i)
  show ?case
  proof (cases "i < n")
    case False
    then show ?thesis by (auto simp: find_from.simps [of P js n i])
  next
    case True
    show ?thesis
    proof (cases "P (js ! i)")
      case True
      with \<open>i < n\<close> show ?thesis
        by (auto simp: find_from.simps [of P js n i])
    next
      case False
      have "(\<forall>k. i \<le> k \<and> k < n \<longrightarrow> \<not> P (js ! k)) \<longleftrightarrow>
            (\<forall>k. Suc i \<le> k \<and> k < n \<longrightarrow> \<not> P (js ! k))"
        using False by (metis Suc_leD Suc_leI le_neq_implies_less)
      with "1.IH" [OF \<open>i < n\<close> False] \<open>i < n\<close> False show ?thesis
        by (simp add: find_from.simps [of P js n i])
    qed
  qed
qed

lemma find_from_Some:
  "find_from P js n i = Some k \<longleftrightarrow>
     i \<le> k \<and> k < n \<and> P (js ! k) \<and> (\<forall>m. i \<le> m \<and> m < k \<longrightarrow> \<not> P (js ! m))"
proof (induction P js n i rule: find_from.induct)
  case (1 P js n i)
  show ?case
  proof (cases "i < n")
    case False
    then show ?thesis by (auto simp: find_from.simps [of P js n i])
  next
    case True
    show ?thesis
    proof (cases "P (js ! i)")
      case True
      with \<open>i < n\<close> show ?thesis
        by (auto simp: find_from.simps [of P js n i] intro: le_antisym)
    next
      case False
      have "find_from P js n i = find_from P js n (Suc i)"
        using \<open>i < n\<close> False by (simp add: find_from.simps [of P js n i])
      moreover have "(i \<le> k \<and> k < n \<and> P (js ! k) \<and> (\<forall>m. i \<le> m \<and> m < k \<longrightarrow> \<not> P (js ! m))) \<longleftrightarrow>
            (Suc i \<le> k \<and> k < n \<and> P (js ! k) \<and> (\<forall>m. Suc i \<le> m \<and> m < k \<longrightarrow> \<not> P (js ! m)))"
        using False by (metis Suc_leD Suc_leI le_neq_implies_less)
      ultimately show ?thesis
        using "1.IH" [OF \<open>i < n\<close> False] by simp
    qed
  qed
qed

lemma length_shift_jobs [simp]: "length (shift_jobs j n js) = length js"
proof (induction j n js rule: shift_jobs.induct)
  case (1 j n js)
  then show ?case by (simp add: shift_jobs.simps [of j n js])
qed

lemma nth_shift_jobs:
  "n \<le> length js \<Longrightarrow> k < length js \<Longrightarrow>
   shift_jobs j n js ! k = (if j \<le> k \<and> k + 1 < n then js ! (k + 1) else js ! k)"
proof (induction j n js rule: shift_jobs.induct)
  case (1 j n js)
  show ?case
  proof (cases "j + 1 < n")
    case False
    then show ?thesis by (auto simp: shift_jobs.simps [of j n js])
  next
    case True
    have "shift_jobs j n js ! k = shift_jobs (j + 1) n (js[j := js ! (j + 1)]) ! k"
      using True by (simp add: shift_jobs.simps [of j n js])
    also have "\<dots> = (if j + 1 \<le> k \<and> k + 1 < n then js[j := js ! (j + 1)] ! (k + 1)
                      else js[j := js ! (j + 1)] ! k)"
      using "1.IH" [OF True] "1.prems" by simp
    also have "\<dots> = (if j \<le> k \<and> k + 1 < n then js ! (k + 1) else js ! k)"
      using True "1.prems" by (auto simp: nth_list_update)
    finally show ?thesis .
  qed
qed

lemma take_shift_jobs:
  assumes "i < n" "n \<le> length js"
  shows "take (n - 1) (shift_jobs i n js) = take i js @ drop (Suc i) (take n js)"
proof (rule nth_equalityI)
  show "length (take (n - 1) (shift_jobs i n js)) = length (take i js @ drop (Suc i) (take n js))"
    using assms by simp
next
  fix k assume "k < length (take (n - 1) (shift_jobs i n js))"
  then have k: "k < n - 1" by simp
  then have kl: "k < length js" using assms by simp
  show "take (n - 1) (shift_jobs i n js) ! k = (take i js @ drop (Suc i) (take n js)) ! k"
    using k kl assms by (auto simp: nth_shift_jobs nth_append)
qed

lemma table_remove_job_found:
  assumes "job_count s \<le> length (jobs s)"
    and "find_from (\<lambda>j. pid j = p) (jobs s) (job_count s) 0 = Some i"
  shows "table (remove_job p s) = take i (table s) @ drop (Suc i) (table s)"
proof -
  have "i < job_count s" using assms(2) by (simp add: find_from_Some)
  then show ?thesis
    using assms take_shift_jobs [of i "job_count s" "jobs s"]
    by (simp add: remove_job_def table_def min_def)
qed

lemma in_set_take_nth:
  "n \<le> length xs \<Longrightarrow> x \<in> set (take n xs) \<longleftrightarrow> (\<exists>k<n. xs ! k = x)"
proof
  assume n: "n \<le> length xs" and "x \<in> set (take n xs)"
  then obtain k where "k < length (take n xs)" "take n xs ! k = x"
    by (auto simp: in_set_conv_nth)
  then show "\<exists>k<n. xs ! k = x" using n by auto
next
  assume n: "n \<le> length xs" and "\<exists>k<n. xs ! k = x"
  then obtain k where k: "k < n" "xs ! k = x" by blast
  then have "k < length (take n xs)" "take n xs ! k = x" using n by auto
  then show "x \<in> set (take n xs)" by (metis nth_mem)
qed

lemma pid_in_table:
  "job_count s \<le> length (jobs s) \<Longrightarrow>
   p \<in> pid ` set (table s) \<longleftrightarrow> (\<exists>k < job_count s. pid (jobs s ! k) = p)"
proof -
  assume n: "job_count s \<le> length (jobs s)"
  have "p \<in> pid ` set (table s) \<longleftrightarrow> (\<exists>x. x \<in> set (take (job_count s) (jobs s)) \<and> pid x = p)"
    by (auto simp: table_def)
  also have "\<dots> \<longleftrightarrow> (\<exists>x. (\<exists>k < job_count s. jobs s ! k = x) \<and> pid x = p)"
    using n by (simp add: in_set_take_nth)
  also have "\<dots> \<longleftrightarrow> (\<exists>k < job_count s. pid (jobs s ! k) = p)"
    by blast
  finally show ?thesis .
qed

lemmas add_job_lines = add_job_193_def add_job_194_def add_job_195_def add_job_196_def
  add_job_197_def

lemma job_t_all_fields:
  "(r :: job_t)\<lparr>job_id := a, pid := b, state := c, command := d\<rparr> =
   \<lparr>job_id = a, pid = b, state = c, command = d\<rparr>"
  by (cases r) simp

lemma gap_calm: "concat dss = [] \<Longrightarrow> gap n dss = []"
  by (auto simp: gap_def)

lemma add_job_signals_calm:
  "concat dss = [] \<Longrightarrow> add_job_signals dss p cmd st s = add_job p cmd st s"
  by (simp add: add_job_signals_def add_job_def gap_calm)

text \<open>\<open>add_job\<close> as one step, when it finds a free slot.\<close>

lemma add_job_free:
  assumes "job_count s < MAX_JOBS" and "job_count s < length (jobs s)"
  shows "add_job p cmd st s =
     s\<lparr>jobs := (jobs s)[job_count s :=
            \<lparr>job_id = next_job_id s, pid = p, state = st,
             command = take (MAX_LINE - 1) cmd\<rparr>],
       job_count := job_count s + 1,
       next_job_id := c_int (next_job_id s + 1),
       assigned := assigned s @ [next_job_id s]\<rparr>"
  using assms by (simp add: add_job_def add_job_lines job_t_all_fields)

lemma add_job_full:
  "MAX_JOBS \<le> job_count s \<Longrightarrow> add_job p cmd st s = printf ''Job queue full\<newline>'' s"
  by (simp add: add_job_def)

lemma c_int_id: "- 2147483648 \<le> x \<Longrightarrow> x < 2147483648 \<Longrightarrow> c_int x = x"
  by (simp add: c_int_def)

lemma sorted_wrt_remove_nth:
  assumes "sorted_wrt P xs" "i < length xs"
  shows "sorted_wrt P (take i xs @ drop (Suc i) xs)"
proof -
  have "sorted_wrt P (take i xs @ xs ! i # drop (Suc i) xs)"
    using assms by (simp add: id_take_nth_drop [symmetric])
  then show ?thesis by (auto simp: sorted_wrt_append)
qed

lemma set_remove_nth: "set (take i xs @ drop (Suc i) xs) \<subseteq> set xs"
  using set_take_subset [of i xs] set_drop_subset [of "Suc i" xs] by auto

lemma table_add_job:
  assumes "length (jobs s) = MAX_JOBS" "job_count s < MAX_JOBS"
  shows "table (add_job p cmd st s) =
         table s @ [\<lparr>job_id = next_job_id s, pid = p, state = st, command = take (MAX_LINE - 1) cmd\<rparr>]"
  using assms by (simp add: add_job_free table_def take_Suc_conv_app_nth)

lemma table_set_state:
  assumes "job_count s \<le> length (jobs s)" "i < job_count s"
  shows "table (s\<lparr>jobs := (jobs s)[i := (jobs s ! i)\<lparr>state := st\<rparr>]\<rparr>) =
         (table s)[i := (table s ! i)\<lparr>state := st\<rparr>]"
  using assms by (simp add: table_def take_update_swap)

lemma find_job_by_pid_bound: "find_job_by_pid p s = Some i \<Longrightarrow> i < job_count s"
  by (simp add: find_job_by_pid_def find_from_Some)

lemma find_job_by_id_bound: "find_job_by_id n s = Some i \<Longrightarrow> i < job_count s"
  by (simp add: find_job_by_id_def find_from_Some)

lemma image_table_iff:
  assumes "job_count s \<le> length (jobs s)"
  shows "v \<in> f ` set (table s) \<longleftrightarrow> (\<exists>k < job_count s. f (jobs s ! k) = v)"
proof -
  have "v \<in> f ` set (table s) \<longleftrightarrow> (\<exists>x. x \<in> set (take (job_count s) (jobs s)) \<and> f x = v)"
    by (auto simp: table_def)
  also have "\<dots> \<longleftrightarrow> (\<exists>x. (\<exists>k < job_count s. jobs s ! k = x) \<and> f x = v)"
    using assms by (simp add: in_set_take_nth)
  also have "\<dots> \<longleftrightarrow> (\<exists>k < job_count s. f (jobs s ! k) = v)"
    by blast
  finally show ?thesis .
qed

lemma find_job_by_id_None:
  "job_count s \<le> length (jobs s) \<Longrightarrow>
   find_job_by_id n s = None \<longleftrightarrow> n \<notin> job_id ` set (table s)"
  by (simp add: find_job_by_id_def find_from_None image_table_iff)

lemma find_job_by_pid_None:
  "job_count s \<le> length (jobs s) \<Longrightarrow>
   find_job_by_pid p s = None \<longleftrightarrow> p \<notin> pid ` set (table s)"
  by (simp add: find_job_by_pid_def find_from_None image_table_iff)

lemma find_from_distinct:
  assumes "distinct (map f (take n js))" "i < n" "n \<le> length js"
  shows "find_from (\<lambda>j. f j = f (js ! i)) js n 0 = Some i"
proof -
  have "f (js ! m) \<noteq> f (js ! i)" if "m < i" for m
  proof
    assume eq: "f (js ! m) = f (js ! i)"
    have eq': "map f (take n js) ! m = map f (take n js) ! i"
      using that assms eq by simp
    have a: "m < length (map f (take n js))" and b: "i < length (map f (take n js))"
      using that assms by simp_all
    have "m = i"
      using nth_eq_iff_index_eq [OF assms(1) a b] eq' by blast
    with that show False by simp
  qed
  with assms show ?thesis by (simp add: find_from_Some)
qed

lemma atoi_out_of_range:
  "atoi ''4294967298'' = 2" "atoi ''4294967296'' = 0" "atoi ''99999999999999999999'' = - 1"
  by (simp_all add: atoi_eval)

lemma atoi_digits_none:
  "(case cs of [] \<Rightarrow> True | d # _ \<Rightarrow> \<not> isdigit d) \<Longrightarrow> atoi_digits 0 cs = 0"
  by (cases cs) auto

lemma atoi_no_digits:
  assumes "no_digits tok"
  shows "atoi tok = 0"
proof (cases "dropWhile isspace tok")
  case Nil
  show ?thesis unfolding atoi_def strtol_def Nil by (simp add: long_range_def LONG_MAX_def LONG_MIN_def c_int_def)
next
  case (Cons c cs)
  have nd: "if c = CHR ''-'' \<or> c = CHR ''+'' then (case cs of [] \<Rightarrow> True | d # _ \<Rightarrow> \<not> isdigit d)
            else \<not> isdigit c"
    using assms unfolding no_digits_def Cons by simp
  show ?thesis
  proof (cases "c = CHR ''-'' \<or> c = CHR ''+''")
    case True
    then have "atoi_digits 0 cs = 0"
      using nd by (intro atoi_digits_none) simp
    with True show ?thesis unfolding atoi_def strtol_def Cons
      by (auto simp: long_range_def LONG_MAX_def LONG_MIN_def c_int_def)
  next
    case False
    then have "\<not> isdigit c" using nd by simp
    with False show ?thesis unfolding atoi_def strtol_def Cons
      by (simp add: long_range_def LONG_MAX_def LONG_MIN_def c_int_def)
  qed
qed

section \<open>The invariant of calm executions\<close>

lemma vars_printf [simp]: "vars (printf x s) = vars s"
  by (simp add: vars_def printf_def)

lemma vars_perror [simp]: "vars (perror x e s) = vars s"
  by (simp add: vars_def perror_def)

lemma vars_kill [simp]: "vars (kill p sg s) = vars s"
  by (simp add: vars_def kill_def)

lemma vars_fold:
  "(\<And>x s. vars (f x s) = vars s) \<Longrightarrow> vars (fold f xs s) = vars s"
  by (induction xs arbitrary: s) simp_all

lemma vars_list_jobs [simp]: "vars (list_jobs s) = vars s"
  by (simp add: list_jobs_def vars_fold)

lemma vars_fg_announce [simp]: "vars (fg_announce n i s) = vars s"
  by (simp add: fg_announce_def)

lemma vars_sigint [simp]: "vars (sigint_handler s) = vars s"
  by (simp add: sigint_handler_def)

lemma vars_sigtstp [simp]: "vars (sigtstp_handler s) = vars s"
  by (simp add: sigtstp_handler_def)

lemma table_inv_vars: "vars s = vars s' \<Longrightarrow> table_inv s = table_inv s'"
  by (simp add: vars_def table_inv_def ids_ok_def few_jobs_def table_def)

lemma fg_pid_vars: "vars s = vars s' \<Longrightarrow> fg_pid s = fg_pid s'"
  by (simp add: vars_def)

lemma jobs_vars: "vars s = vars s' \<Longrightarrow> jobs s = jobs s'"
  by (simp add: vars_def)

lemma ids_ok_add_job:
  assumes "ids_ok s" and "length (jobs s) = MAX_JOBS" and "job_count s < MAX_JOBS"
    and "few_jobs (add_job p cmd st s)"
  shows "ids_ok (add_job p cmd st s)"
proof -
  note tab = table_add_job [OF assms(2,3), of p cmd st]
  have a: "assigned (add_job p cmd st s) = assigned s @ [next_job_id s]"
    using assms(2,3) by (simp add: add_job_free)
  have nxt: "1 + int (length (assigned s)) = next_job_id s"
    using assms(1) by (simp add: ids_ok_def)
  have "next_job_id s + 1 < 2147483648"
    using assms(4) nxt by (simp add: few_jobs_def a INT_MAX_def)
  then have "c_int (next_job_id s + 1) = next_job_id s + 1"
    using nxt by (intro c_int_id) simp_all
  then have n: "next_job_id (add_job p cmd st s) = next_job_id s + 1"
    using assms(2,3) by (simp add: add_job_free)
  show ?thesis
    unfolding ids_ok_def tab a n
    using assms(1) unfolding ids_ok_def
    by (auto simp: sorted_wrt_append list_all_iff)
qed

lemma table_inv_add_job:
  assumes "table_inv s" "0 < p"
  shows "table_inv (add_job p cmd st s)"
proof (cases "job_count s < MAX_JOBS")
  case False
  then have "add_job p cmd st s = printf ''Job queue full\<newline>'' s"
    by (simp add: add_job_full)
  then show ?thesis using assms(1) table_inv_vars [of "printf ''Job queue full\<newline>'' s" s] by simp
next
  case True
  have len: "length (jobs s) = MAX_JOBS" using assms(1) by (simp add: table_inv_def)
  note tab = table_add_job [OF len True, of p cmd st]
  have f: "length (jobs (add_job p cmd st s)) = MAX_JOBS"
       "job_count (add_job p cmd st s) = job_count s + 1"
       "assigned (add_job p cmd st s) = assigned s @ [next_job_id s]"
    using True len by (simp_all add: add_job_free)
  have few: "few_jobs s" if "few_jobs (add_job p cmd st s)"
    using that by (simp add: few_jobs_def f)
  have "ids_ok (add_job p cmd st s)" if "few_jobs (add_job p cmd st s)"
    using that few assms(1) len True by (intro ids_ok_add_job) (simp_all add: table_inv_def)
  moreover have "list_all (\<lambda>j. 0 < pid j) (table (add_job p cmd st s))"
    unfolding tab using assms by (simp add: table_inv_def)
  ultimately show ?thesis
    using True by (simp add: table_inv_def f)
qed

lemma ids_ok_sublist:
  assumes "ids_ok s" and "set t \<subseteq> set (table s)" and "sorted_wrt (<) (map job_id t)"
    and "table s' = t" and "next_job_id s' = next_job_id s" and "assigned s' = assigned s"
  shows "ids_ok s'"
proof -
  have "list_all Q t" if "list_all Q (table s)" for Q
    using that assms(2) unfolding list_all_iff by blast
  then have "list_all (\<lambda>j. 1 \<le> job_id j \<and> job_id j < next_job_id s) t"
    using assms(1) by (simp add: ids_ok_def)
  moreover have "set (map job_id t) \<subseteq> set (map job_id (table s))"
    using assms(2) unfolding set_map by (rule image_mono)
  then have "set (map job_id t) \<subseteq> set (assigned s)"
    using assms(1) unfolding ids_ok_def by blast
  ultimately show ?thesis
    using assms(1,3) unfolding ids_ok_def assms(4,5,6) by simp
qed

lemma table_inv_remove_job:
  assumes "table_inv s"
  shows "table_inv (remove_job p s)"
proof (cases "find_from (\<lambda>j. pid j = p) (jobs s) (job_count s) 0")
  case None
  then show ?thesis using assms by (simp add: remove_job_def)
next
  case (Some i)
  have le: "job_count s \<le> length (jobs s)" using assms by (simp add: table_inv_def)
  have i: "i < job_count s" using Some by (simp add: find_from_Some)
  have len: "length (table s) = job_count s" using le by (simp add: table_def)
  note tab = table_remove_job_found [OF le Some]
  have f: "length (jobs (remove_job p s)) = length (jobs s)"
       "job_count (remove_job p s) = job_count s - 1"
       "next_job_id (remove_job p s) = next_job_id s"
       "assigned (remove_job p s) = assigned s"
    using Some by (simp_all add: remove_job_def)
  let ?t = "take i (table s) @ drop (Suc i) (table s)"
  have sub: "set ?t \<subseteq> set (table s)"
    by (rule set_remove_nth)
  have "ids_ok (remove_job p s)" if "few_jobs (remove_job p s)"
  proof (rule ids_ok_sublist [OF _ sub _ tab f(3,4)])
    have "few_jobs s" using that by (simp add: few_jobs_def f)
    then show ok: "ids_ok s" using assms by (simp add: table_inv_def)
    then show "sorted_wrt (<) (map job_id ?t)"
      using sorted_wrt_remove_nth [of "(<)" "map job_id (table s)" i] i len
      by (simp add: ids_ok_def take_map drop_map)
  qed
  moreover have "list_all (\<lambda>j. 0 < pid j) ?t"
    using assms sub unfolding table_inv_def list_all_iff by blast
  ultimately show ?thesis
    using assms unfolding table_inv_def tab f by auto
qed

lemma table_inv_set_state:
  assumes "table_inv s" "i < job_count s"
  shows "table_inv (s\<lparr>jobs := (jobs s)[i := (jobs s ! i)\<lparr>state := st\<rparr>]\<rparr>)"
proof -
  let ?s' = "s\<lparr>jobs := (jobs s)[i := (jobs s ! i)\<lparr>state := st\<rparr>]\<rparr>"
  have le: "job_count s \<le> length (jobs s)" using assms by (simp add: table_inv_def)
  have len: "length (table s) = job_count s" using le by (simp add: table_def)
  let ?t = "(table s)[i := (table s ! i)\<lparr>state := st\<rparr>]"
  have tab: "table ?s' = ?t" by (rule table_set_state [OF le assms(2)])
  have ids: "map job_id ?t = map job_id (table s)"
    using assms(2) len by (simp add: map_update list_update_same_conv)
  have pids: "map pid ?t = map pid (table s)"
    using assms(2) len by (simp add: map_update list_update_same_conv)
  have "list_all (\<lambda>j. 0 < pid j) ?t \<longleftrightarrow> list_all (\<lambda>j. 0 < pid j) (table s)"
    using arg_cong [OF pids, of "list_all (\<lambda>x. 0 < x)"] by (simp add: list_all_iff)
  moreover have "ids_ok ?s' \<longleftrightarrow> ids_ok s"
  proof -
    have "list_all (\<lambda>j. 1 \<le> job_id j \<and> job_id j < next_job_id s) ?t \<longleftrightarrow>
          list_all (\<lambda>j. 1 \<le> job_id j \<and> job_id j < next_job_id s) (table s)"
      using arg_cong [OF ids, of "list_all (\<lambda>x. 1 \<le> x \<and> x < next_job_id s)"]
      by (simp add: list_all_iff)
    then show ?thesis
      unfolding ids_ok_def tab using ids by simp
  qed
  moreover have "few_jobs ?s' \<longleftrightarrow> few_jobs s" by (simp add: few_jobs_def)
  ultimately show ?thesis
    using assms(1) unfolding table_inv_def tab by simp
qed

lemma table_inv_printf [simp]: "table_inv (printf x s) = table_inv s"
  by (rule table_inv_vars) simp

lemma table_inv_perror [simp]: "table_inv (perror x e s) = table_inv s"
  by (rule table_inv_vars) simp

lemma table_inv_kill [simp]: "table_inv (kill p sg s) = table_inv s"
  by (rule table_inv_vars) simp

lemma table_inv_fg_pid [simp]: "table_inv (s\<lparr>fg_pid := p\<rparr>) = table_inv s"
  by (simp add: table_inv_def ids_ok_def few_jobs_def table_def)

lemma fg_pid_printf [simp]: "fg_pid (printf x s) = fg_pid s"
  by (simp add: printf_def)

lemma fg_pid_perror [simp]: "fg_pid (perror x e s) = fg_pid s"
  by (simp add: perror_def)

lemma fg_pid_kill [simp]: "fg_pid (kill p sg s) = fg_pid s"
  by (simp add: kill_def)

lemma fg_pid_add_job [simp]: "fg_pid (add_job p cmd st s) = fg_pid s"
  by (simp add: add_job_def add_job_lines)

lemma fg_pid_remove_job [simp]: "fg_pid (remove_job p s) = fg_pid s"
  by (simp add: remove_job_def split: option.splits)

lemma fg_pid_update_job_state [simp]: "fg_pid (update_job_state p st s) = fg_pid s"
  by (simp add: update_job_state_def split: option.splits)

lemma table_inv_update_job_state:
  "table_inv s \<Longrightarrow> table_inv (update_job_state p st s)"
  by (auto simp: update_job_state_def table_inv_set_state find_job_by_pid_bound
           split: option.splits)

lemma fg_pid_reap [simp]: "fg_pid (reap p st s) = fg_pid s"
  by (simp add: reap_def Let_def split: option.splits)

lemma table_inv_reap:
  assumes "table_inv s" "0 < p"
  shows "table_inv (reap p st s)"
  using assms
  by (simp add: reap_def Let_def table_inv_remove_job table_inv_update_job_state
        table_inv_add_job split: option.splits)

lemma fg_pid_sigchld_handler [simp]: "fg_pid (sigchld_handler evs s) = fg_pid s"
  by (induction evs s rule: sigchld_handler.induct) simp_all

lemma table_inv_sigchld_handler:
  "table_inv s \<Longrightarrow> table_inv (sigchld_handler evs s)"
  by (induction evs s rule: sigchld_handler.induct) (simp_all add: table_inv_reap)

lemma fg_pid_deliver [simp]: "fg_pid (deliver d s) = fg_pid s"
  by (cases d) (simp_all add: sigint_handler_def sigtstp_handler_def)

lemma table_inv_deliver: "table_inv s \<Longrightarrow> table_inv (deliver d s)"
  by (cases d) (simp_all add: table_inv_sigchld_handler sigint_handler_def sigtstp_handler_def)

lemma fg_pid_fold_deliver [simp]: "fg_pid (fold deliver ds s) = fg_pid s"
  by (induction ds arbitrary: s) simp_all

lemma table_inv_fold_deliver: "table_inv s \<Longrightarrow> table_inv (fold deliver ds s)"
  by (induction ds arbitrary: s) (simp_all add: table_inv_deliver)

lemma fg_pid_wait_begin [simp]: "fg_pid (wait_begin p s) = p"
  by (simp add: wait_begin_def)

lemma fg_pid_wait_end [simp]: "fg_pid (wait_end r s) = 0"
  by (simp add: wait_end_def)

lemma table_inv_wait_begin [simp]: "table_inv (wait_begin p s) = table_inv s"
  by (simp add: wait_begin_def)

lemma table_inv_wait_end [simp]: "table_inv (wait_end r s) = table_inv s"
  by (simp add: wait_end_def split: wait_result.splits)

lemma fg_pid_wait_for_fg [simp]: "fg_pid (wait_for_fg p k s) = 0"
  by (simp add: wait_for_fg_def)

lemma table_inv_wait_for_fg: "table_inv s \<Longrightarrow> table_inv (wait_for_fg p k s)"
  by (simp add: wait_for_fg_def table_inv_fold_deliver)

lemma table_inv_list_jobs [simp]: "table_inv (list_jobs s) = table_inv s"
  by (rule table_inv_vars) simp

lemma fg_pid_list_jobs [simp]: "fg_pid (list_jobs s) = fg_pid s"
  by (rule fg_pid_vars) simp

lemma table_inv_fg_announce [simp]: "table_inv (fg_announce n i s) = table_inv s"
  by (rule table_inv_vars) simp

lemma fg_pid_fold_printf [simp]: "fg_pid (fold printf xs s) = fg_pid s"
  by (rule fg_pid_vars) (simp add: vars_fold)

lemma table_inv_fold_printf [simp]: "table_inv (fold printf xs s) = table_inv s"
  by (rule table_inv_vars) (simp add: vars_fold)

lemma builtin_fg_inv:
  "table_inv s \<Longrightarrow> builtin_fg n k s = Return m s' \<Longrightarrow> table_inv s' \<and> fg_pid s' = fg_pid s \<or> table_inv s' \<and> fg_pid s' = 0"
  by (auto simp: builtin_fg_def Let_def table_inv_remove_job table_inv_wait_for_fg
           split: option.splits)

lemma builtin_bg_inv:
  "table_inv s \<Longrightarrow> builtin_bg n s = Return m s' \<Longrightarrow> table_inv s' \<and> fg_pid s' = fg_pid s"
proof -
  assume inv: "table_inv s" and r: "builtin_bg n s = Return m s'"
  show ?thesis
  proof (cases "find_job_by_id n s")
    case None
    with inv r show ?thesis by (auto simp: builtin_bg_def)
  next
    case (Some i)
    then have i: "i < job_count s" by (rule find_job_by_id_bound)
    have "table_inv ((kill (pid (jobs s ! i)) SIGCONT s)
             \<lparr>jobs := (jobs s)[i := (jobs s ! i)\<lparr>state := RUNNING\<rparr>]\<rparr>)"
      using table_inv_set_state [OF inv i, of RUNNING]
        table_inv_vars [of "(kill (pid (jobs s ! i)) SIGCONT s)
             \<lparr>jobs := (jobs s)[i := (jobs s ! i)\<lparr>state := RUNNING\<rparr>]\<rparr>"
          "s\<lparr>jobs := (jobs s)[i := (jobs s ! i)\<lparr>state := RUNNING\<rparr>]\<rparr>"]
      by (simp add: kill_def vars_def)
    with inv r Some show ?thesis
      by (auto simp: builtin_bg_def kill_def split: if_splits)
  qed
qed

lemma builtin_kill_inv:
  "table_inv s \<Longrightarrow> builtin_kill n s = Return m s' \<Longrightarrow> table_inv s' \<and> fg_pid s' = fg_pid s"
  by (auto simp: builtin_kill_def split: option.splits)

lemma builtin_command_inv:
  assumes "table_inv s" "fg_pid s = 0" "builtin_command args k s = Return m s'"
  shows "table_inv s' \<and> fg_pid s' = 0"
proof (cases args)
  case Nil
  with assms show ?thesis by (simp add: builtin_command_def)
next
  case (Cons a0 rest)
  show ?thesis
  proof (cases rest)
    case Nil
    with assms Cons show ?thesis
      by (auto simp: builtin_command_def split: if_splits)
  next
    case (Cons a1 more)
    with assms \<open>args = a0 # rest\<close> show ?thesis
      using builtin_fg_inv [of s "atoi a1" k m s'] builtin_bg_inv [of s "atoi a1" m s']
        builtin_kill_inv [of s "atoi a1" m s']
      by (auto simp: builtin_command_def split: if_splits)
  qed
qed

lemma execute_command_inv:
  assumes "table_inv s" "fg_pid s = 0" "calm k" "execute_command args bg k s = Return m s'"
  shows "table_inv s' \<and> fg_pid s' = 0"
proof -
  have "add_job_signals (in_add_job k) p cmd st s = add_job p cmd st s" for p cmd st
    using assms(3) by (simp add: calm_def add_job_signals_calm)
  then show ?thesis
    using assms(1,2,4)
    by (auto simp: execute_command_def Let_def table_inv_add_job table_inv_wait_for_fg
             split: list.splits if_splits)
qed

lemma table_inv_init: "table_inv init_shell"
  unfolding table_inv_def ids_ok_def few_jobs_def init_shell_def table_def by simp

lemma reachable_inv: "reachable_calm c s \<Longrightarrow> table_inv s \<and> fg_inv c s"
proof (induction rule: reachable_calm.induct)
  case start
  have "fg_pid init_shell = 0" by (simp add: init_shell_def)
  then show ?case by (simp add: table_inv_init fg_inv_def)
next
  case (signal c s d)
  then show ?case by (simp add: table_inv_deliver fg_inv_def split: pc.splits)
next
  case (builtin s args k n s')
  then show ?case using builtin_command_inv [of s args k n s'] by (simp add: fg_inv_def)
next
  case (external s k args background n s')
  then show ?case using execute_command_inv [of s k args background n s'] by (simp add: fg_inv_def)
next
  case (fg_blocks s n i s1)
  then have inv: "table_inv s" by simp
  have i: "i < job_count s" using fg_blocks by (simp add: find_job_by_id_bound)
  have "jobs s1 = jobs s"
    unfolding \<open>s1 = fg_announce n i s\<close> by (rule jobs_vars) simp
  moreover have "0 < pid (jobs s ! i)"
    using inv i by (simp add: table_inv_def table_def list_all_length)
  ultimately show ?case using fg_blocks inv by (simp add: fg_inv_def)
next
  case (fg_returns p i s s2 r)
  then show ?case by (simp add: fg_inv_def table_inv_remove_job)
next
  case (exec_blocks s p)
  then show ?case by (simp add: fg_inv_def)
next
  case (exec_returns p s r)
  then show ?case by (simp add: fg_inv_def)
qed



lemma err_printf [simp]: "err (printf x s) = err s"
  by (simp add: printf_def)

lemma err_kill [simp]: "err (kill p sg s) = err s"
  by (simp add: kill_def)

lemma err_add_job [simp]: "err (add_job p cmd st s) = err s"
  by (simp add: add_job_def add_job_lines)

lemma err_remove_job [simp]: "err (remove_job p s) = err s"
  by (simp add: remove_job_def split: option.splits)

lemma err_update_job_state [simp]: "err (update_job_state p st s) = err s"
  by (simp add: update_job_state_def split: option.splits)

lemma err_reap [simp]: "err (reap p st s) = err s"
  by (simp add: reap_def Let_def split: option.splits)

lemma err_sigchld_handler [simp]: "err (sigchld_handler evs s) = err s"
  by (induction evs s rule: sigchld_handler.induct) simp_all

lemma err_deliver [simp]: "err (deliver d s) = err s"
  by (cases d) (simp_all add: sigint_handler_def sigtstp_handler_def)

lemma err_fold_deliver [simp]: "err (fold deliver ds s) = err s"
  by (induction ds arbitrary: s) simp_all

section \<open>The example states\<close>

lemma atoi_5: "atoi ''5'' = 5"
  by (simp add: atoi_eval)

lemma show_int_5: "show_int 5 = ''5''"
  by (simp add: show_int_def show_nat.simps digit_char_def)

lemma atoi_2: "atoi ''2'' = 2"
  by (simp add: atoi_eval)

lemma table_three_jobs: "table three_jobs = [job1, job2, job3]"
  by (simp add: three_jobs_def table_def)

lemma table_inv_three_jobs: "table_inv three_jobs"
  unfolding table_inv_def ids_ok_def few_jobs_def table_three_jobs
  by (simp add: three_jobs_def job1_def job2_def job3_def MAX_JOBS_def)

lemma spawned_0: "spawned 0 = init_shell"
  by (simp add: spawned_def init_shell_def)

lemma update_first_free:
  assumes "length xs < m"
  shows "(xs @ replicate (m - length xs) z)[length xs := x] =
         xs @ x # replicate (m - Suc (length xs)) z"
proof -
  have "m - length xs = Suc (m - Suc (length xs))" using assms by simp
  then show ?thesis by (simp add: list_update_append)
qed

lemma spawn_step:
  assumes "n < MAX_JOBS"
  shows "execute_command [''sleep'', ''100''] True (forked (5000 + int n)) (spawned n) =
         Return 1 (spawned (Suc n))"
proof -
  have upd: "(map sleeper [0..<n] @ replicate (MAX_JOBS - n) zero_job)[n := x] =
             map sleeper [0..<n] @ x # replicate (MAX_JOBS - Suc n) zero_job" for x
    using assms update_first_free [of "map sleeper [0..<n]" MAX_JOBS zero_job x] by simp
  have nth: "(map sleeper [0..<n] @ x # replicate (MAX_JOBS - Suc n) zero_job) ! n = x" for x
    by (simp add: nth_append)
  have free: "job_count (spawned n) < MAX_JOBS" "job_count (spawned n) < length (jobs (spawned n))"
    using assms by (simp_all add: spawned_def)
  have ci: "c_int (2 + int n) = 2 + int n"
    using assms by (intro c_int_id) (simp_all add: MAX_JOBS_def)
  have e: "execute_command [''sleep'', ''100''] True (forked (5000 + int n)) (spawned n) =
      Return 1 (printf (''['' @ show_int (job_id (jobs
           (add_job (5000 + int n) ''sleep 100 '' RUNNING (spawned n)) !
           (job_count (add_job (5000 + int n) ''sleep 100 '' RUNNING (spawned n)) - 1))) @
         ''] '' @ show_int (5000 + int n) @ '' sleep 100 \<newline>'')
        (add_job (5000 + int n) ''sleep 100 '' RUNNING (spawned n)))"
    by (simp add: execute_command_def forked_def add_job_signals_calm Let_def)
  show ?thesis
    unfolding e add_job_free [OF free]
    by (simp add: spawned_def printf_def upd nth sleeper_def spawn_notice_def MAX_LINE_def ci)
qed

lemma calm_forked: "calm (forked p)"
  by (simp add: calm_def forked_def)

lemma reachable_spawned: "n \<le> MAX_JOBS \<Longrightarrow> reachable_calm Prompt (spawned n)"
proof (induction n)
  case 0
  show ?case by (simp add: spawned_0 reachable_calm.start)
next
  case (Suc n)
  then have r: "reachable_calm Prompt (spawned n)" and lt: "n < MAX_JOBS" by simp_all
  show ?case by (rule reachable_calm.external [OF r calm_forked spawn_step [OF lt]])
qed

lemma reachable_full_table: "reachable_calm Prompt full_table"
  by (simp add: full_table_def reachable_spawned)

lemma table_spawned: "n \<le> MAX_JOBS \<Longrightarrow> table (spawned n) = map sleeper [0..<n]"
  by (simp add: table_def spawned_def)

lemma full_table_fields:
  "job_count full_table = MAX_JOBS" "length (jobs full_table) = MAX_JOBS"
  "sent full_table = []" "next_job_id full_table = 101"
  "table full_table = map sleeper [0..<MAX_JOBS]"
  by (simp_all add: full_table_def table_spawned) (simp_all add: spawned_def MAX_JOBS_def)

lemma pid_full_table: "7000 \<notin> pid ` set (table full_table)"
  by (auto simp: full_table_fields sleeper_def MAX_JOBS_def)

lemma show_int_4: "show_int 4 = ''4''"
  by (simp add: show_int_def show_nat.simps digit_char_def)

lemma reachable_first_done: "reachable_calm Prompt first_done"
  unfolding first_done_def
  by (rule reachable_calm.signal) (simp add: reachable_spawned MAX_JOBS_def)

lemma first_done_fields:
  "table first_done = [sleeper 1]" "next_job_id first_done = 3"
  "assigned first_done = [1, 2]" "job_count first_done = 1"
proof -
  have two: "[0..<2] = [0, Suc 0]" by (simp add: upt_rec)
  have found: "find_job_by_pid 5000 (spawned 2) = Some 0"
    by (simp add: find_job_by_pid_def find_from_Some spawned_def two sleeper_def)
  define s where "s = printf ''shell> '' (printf (done_notice (jobs (spawned 2) ! 0)) (spawned 2))"
  have s: "jobs s = jobs (spawned 2)" "job_count s = 2" "next_job_id s = 3"
      "assigned s = [1, 2]"
    by (simp_all add: s_def printf_def spawned_def two)
  have fd: "first_done = remove_job 5000 s"
    by (simp add: first_done_def reap_def found s_def)
  have jc: "job_count (spawned 2) = 2" by (simp add: spawned_def)
  have f: "find_from (\<lambda>j. pid j = 5000) (jobs s) (job_count s) 0 = Some 0"
    using found by (simp add: find_job_by_pid_def s jc)
  have le: "job_count s \<le> length (jobs s)" by (simp add: s spawned_def MAX_JOBS_def)
  have "table s = [sleeper 0, sleeper 1]"
    by (simp add: table_def s spawned_def two)
  then show "table first_done = [sleeper 1]"
    using table_remove_job_found [OF le f] by (simp add: fd)
  show "next_job_id first_done = 3" "assigned first_done = [1, 2]" "job_count first_done = 1"
    using f by (simp_all add: fd remove_job_def s)
qed

lemma show_int_0: "show_int 0 = ''0''"
  by (simp add: show_int_def show_nat.simps digit_char_def)

text \<open>
  A background command at the prompt of a state with a free slot, and the churn of a
  session that spawns a job and sees it exit, again and again: the table is empty after
  every round, and the counter has moved on by one.
\<close>

lemma c_int_add: "c_int (c_int x + y) = c_int (x + y)"
proof -
  have "(((x + 2147483648) mod 4294967296) + y) mod 4294967296 =
        ((x + 2147483648) + y) mod (4294967296::int)"
    by (rule mod_add_left_eq)
  then show ?thesis by (simp add: c_int_def algebra_simps)
qed

lemma spawn_free:
  assumes "job_count s < MAX_JOBS" and "length (jobs s) = MAX_JOBS" and "0 < p"
  shows "execute_command [a] True (forked p) s =
         Return 1 (printf (''['' @ show_int (next_job_id s) @ ''] '' @ show_int p @ '' '' @ a @
                           '' \<newline>'')
                     (add_job p (a @ '' '') RUNNING s))"
proof -
  have lt: "job_count s < length (jobs s)" using assms(1,2) by simp
  have "job_id (jobs (add_job p (a @ '' '') RUNNING s) !
                (job_count (add_job p (a @ '' '') RUNNING s) - 1)) = next_job_id s"
    unfolding add_job_free [OF assms(1) lt] using lt by simp
  then show ?thesis
    using assms(3)
    by (simp add: execute_command_def forked_def add_job_signals_calm Let_def)
qed

lemma reap_only_job:
  assumes "job_count s = 0" and "length (jobs s) = MAX_JOBS" and "0 < p"
  shows "job_count (deliver (Child [(p, Exited)]) (printf x (add_job p cmd RUNNING s))) = 0 \<and>
         length (jobs (deliver (Child [(p, Exited)]) (printf x (add_job p cmd RUNNING s)))) = MAX_JOBS \<and>
         next_job_id (deliver (Child [(p, Exited)]) (printf x (add_job p cmd RUNNING s))) =
           c_int (next_job_id s + 1) \<and>
         assigned (deliver (Child [(p, Exited)]) (printf x (add_job p cmd RUNNING s))) =
           assigned s @ [next_job_id s] \<and>
         sent (deliver (Child [(p, Exited)]) (printf x (add_job p cmd RUNNING s))) = sent s"
proof -
  have free: "job_count s < MAX_JOBS" "job_count s < length (jobs s)"
    using assms(1,2) by (simp_all add: MAX_JOBS_def)
  define s1 where "s1 = printf x (add_job p cmd RUNNING s)"
  have s1: "job_count s1 = 1" "pid (jobs s1 ! 0) = p" "length (jobs s1) = MAX_JOBS"
      "next_job_id s1 = c_int (next_job_id s + 1)" "assigned s1 = assigned s @ [next_job_id s]"
      "sent s1 = sent s"
    unfolding s1_def add_job_free [OF free] using assms(1,2) free
    by (simp_all add: printf_def)
  have f: "find_from (\<lambda>j. pid j = p) (jobs s1) (Suc 0) 0 = Some 0"
    using s1(2) by (simp add: find_from.simps [of _ _ _ 0])
  have sh: "shift_jobs 0 (Suc 0) js = js" for js :: "job_t list"
    by (simp add: shift_jobs.simps)
  show ?thesis
    unfolding s1_def [symmetric] using assms(3) s1 f
    by (simp add: reap_def find_job_by_pid_def remove_job_def printf_def sh)
qed

lemma spawn_true:
  assumes "job_count s = 0" and "length (jobs s) = MAX_JOBS"
  shows "execute_command [''true''] True (forked 5000) s =
           Return 1 (state_after (execute_command [''true''] True (forked 5000) s) s)"
    and "state_after (execute_command [''true''] True (forked 5000) s) s =
           printf (''['' @ show_int (next_job_id s) @ ''] '' @ show_int 5000 @ '' '' @ ''true'' @
                   '' \<newline>'')
             (add_job 5000 (''true'' @ '' '') RUNNING s)"
proof -
  have free: "job_count s < MAX_JOBS" using assms(1) by (simp add: MAX_JOBS_def)
  have e: "execute_command [''true''] True (forked 5000) s =
      Return 1 (printf (''['' @ show_int (next_job_id s) @ ''] '' @ show_int 5000 @ '' '' @
                        ''true'' @ '' \<newline>'')
                  (add_job 5000 (''true'' @ '' '') RUNNING s))"
    by (rule spawn_free [OF free assms(2)]) simp
  show "state_after (execute_command [''true''] True (forked 5000) s) s =
           printf (''['' @ show_int (next_job_id s) @ ''] '' @ show_int 5000 @ '' '' @ ''true'' @
                   '' \<newline>'')
             (add_job 5000 (''true'' @ '' '') RUNNING s)"
    unfolding e by (simp add: state_after_def)
  then show "execute_command [''true''] True (forked 5000) s =
           Return 1 (state_after (execute_command [''true''] True (forked 5000) s) s)"
    using e by simp
qed

lemma churn_fields:
  "reachable_calm Prompt (churn n) \<and> job_count (churn n) = 0 \<and>
   length (jobs (churn n)) = MAX_JOBS \<and> next_job_id (churn n) = c_int (1 + int n) \<and>
   length (assigned (churn n)) = n \<and> sent (churn n) = []"
proof (induction n)
  case 0
  have "reachable_calm Prompt init_shell" by (rule reachable_calm.start)
  moreover have "job_count init_shell = 0 \<and> length (jobs init_shell) = MAX_JOBS \<and>
      next_job_id init_shell = c_int (1 + int 0) \<and> length (assigned init_shell) = 0 \<and>
      sent init_shell = []"
    by (simp add: init_shell_def c_int_def)
  ultimately show ?case by simp
next
  case (Suc n)
  define s where "s = churn n"
  have s: "reachable_calm Prompt s" "job_count s = 0" "length (jobs s) = MAX_JOBS"
      "next_job_id s = c_int (1 + int n)" "length (assigned s) = n" "sent s = []"
    using Suc by (simp_all add: s_def)
  define x where "x = ''['' @ show_int (next_job_id s) @ ''] '' @ show_int 5000 @ '' '' @ ''true'' @ '' \<newline>''"
  define s1 where "s1 = state_after (execute_command [''true''] True (forked 5000) s) s"
  define s2 where "s2 = deliver (Child [(5000, Exited)]) s1"
  have e: "s1 = printf x (add_job 5000 (''true'' @ '' '') RUNNING s)"
    unfolding s1_def x_def by (rule spawn_true(2) [OF s(2,3)])
  have "execute_command [''true''] True (forked 5000) s = Return 1 s1"
    unfolding s1_def by (rule spawn_true(1) [OF s(2,3)])
  then have "reachable_calm Prompt s1"
    by (rule reachable_calm.external [OF s(1) calm_forked])
  then have r: "reachable_calm Prompt s2"
    unfolding s2_def by (rule reachable_calm.signal)
  have f: "job_count s2 = 0" "length (jobs s2) = MAX_JOBS"
      "next_job_id s2 = c_int (next_job_id s + 1)"
      "assigned s2 = assigned s @ [next_job_id s]" "sent s2 = sent s"
    unfolding s2_def e
    using reap_only_job [OF s(2,3), of 5000 x "''true'' @ '' ''"] by simp_all
  have "next_job_id s2 = c_int (1 + int (Suc n))"
    unfolding f(3) s(4) c_int_add by (simp add: algebra_simps)
  moreover have "churn (Suc n) = s2"
    by (simp add: s2_def s1_def s_def)
  ultimately show ?case using r f s(5,6) by simp
qed

lemma churn_spawn:
  "reachable_calm Prompt
     (state_after (execute_command [''true''] True (forked 5000) (churn n)) (churn n))"
  "table (state_after (execute_command [''true''] True (forked 5000) (churn n)) (churn n)) =
     [\<lparr>job_id = c_int (1 + int n), pid = 5000, state = RUNNING, command = ''true ''\<rparr>]"
  "next_job_id (state_after (execute_command [''true''] True (forked 5000) (churn n)) (churn n)) =
     c_int (2 + int n)"
  "length (assigned
     (state_after (execute_command [''true''] True (forked 5000) (churn n)) (churn n))) = Suc n"
  "sent (state_after (execute_command [''true''] True (forked 5000) (churn n)) (churn n)) = []"
proof -
  define s where "s = churn n"
  have s: "reachable_calm Prompt s" "job_count s = 0" "length (jobs s) = MAX_JOBS"
      "next_job_id s = c_int (1 + int n)" "length (assigned s) = n" "sent s = []"
    using churn_fields [of n] by (simp_all add: s_def)
  have free: "job_count s < MAX_JOBS" "job_count s < length (jobs s)"
    using s(2,3) by (simp_all add: MAX_JOBS_def)
  define s1 where "s1 = state_after (execute_command [''true''] True (forked 5000) s) s"
  note e = spawn_true(2) [OF s(2,3), folded s1_def]
  have "execute_command [''true''] True (forked 5000) s = Return 1 s1"
    unfolding s1_def by (rule spawn_true(1) [OF s(2,3)])
  then have r: "reachable_calm Prompt s1"
    by (rule reachable_calm.external [OF s(1) calm_forked])
  have t: "table s1 = [\<lparr>job_id = c_int (1 + int n), pid = 5000, state = RUNNING,
      command = ''true ''\<rparr>]"
    using table_add_job [OF s(3) free(1), of 5000 "''true'' @ '' ''" RUNNING] s(2,4)
    by (simp add: e table_def printf_def MAX_LINE_def)
  have n1: "next_job_id s1 = c_int (next_job_id s + 1)"
    unfolding e add_job_free [OF free] by (simp add: printf_def)
  have a1: "assigned s1 = assigned s @ [next_job_id s]" "sent s1 = []"
    unfolding e add_job_free [OF free] using s(6) by (simp_all add: printf_def)
  have "next_job_id s1 = c_int (2 + int n)"
    unfolding n1 s(4) c_int_add by (simp add: algebra_simps)
  then have f: "next_job_id s1 = c_int (2 + int n)" "length (assigned s1) = Suc n" "sent s1 = []"
    using s(5) a1 by simp_all
  show "reachable_calm Prompt
     (state_after (execute_command [''true''] True (forked 5000) (churn n)) (churn n))"
    using r by (simp add: s1_def s_def)
  show "table (state_after (execute_command [''true''] True (forked 5000) (churn n)) (churn n)) =
     [\<lparr>job_id = c_int (1 + int n), pid = 5000, state = RUNNING, command = ''true ''\<rparr>]"
    using t by (simp add: s1_def s_def)
  show "next_job_id (state_after (execute_command [''true''] True (forked 5000) (churn n)) (churn n)) =
     c_int (2 + int n)"
    using f(1) by (simp add: s1_def s_def)
  show "length (assigned
     (state_after (execute_command [''true''] True (forked 5000) (churn n)) (churn n))) = Suc n"
    using f(2) by (simp add: s1_def s_def)
  show "sent (state_after (execute_command [''true''] True (forked 5000) (churn n)) (churn n)) = []"
    using f(3) by (simp add: s1_def s_def)
qed

lemma overflowed_fields:
  "reachable_calm Prompt overflowed"
  "table overflowed = [\<lparr>job_id = 2147483647, pid = 5000, state = RUNNING, command = ''true ''\<rparr>]"
  "next_job_id overflowed = - 2147483648" "length (assigned overflowed) = 2147483647"
  using churn_spawn [of 2147483646] unfolding overflowed_def [symmetric]
  by (simp_all add: c_int_def)

lemma wrapped_fields:
  "reachable_calm Prompt wrapped"
  "table wrapped = [\<lparr>job_id = 0, pid = 5000, state = RUNNING, command = ''true ''\<rparr>]"
  "length (assigned wrapped) = 4294967296" "sent wrapped = []"
  using churn_spawn [of 4294967295] unfolding wrapped_def [symmetric]
  by (simp_all add: c_int_def)

text \<open>The two commands with a \<open>SIGCHLD\<close> inside \<open>add_job\<close>.\<close>

lemma raced_run: "execute_command [''cat''] True stopped_in_add_job init_shell = Return 1 raced"
proof -
  have rep: "replicate 100 z = z # replicate 99 z" for z :: job_t
    using replicate_Suc [of 99 z] by simp
  have f: "find_from P js 0 0 = None" for P and js :: "job_t list"
    by (simp add: find_from.simps)
  have sh: "show_int 5000 = ''5000''"
    by (simp add: show_int_def show_nat.simps digit_char_def)
  show ?thesis
    by (simp add: execute_command_def stopped_in_add_job_def forked_def add_job_signals_def
          gap_def add_job_lines add_job_def init_shell_def rep reap_def find_job_by_pid_def f
          printf_def raced_def zero_job_def MAX_JOBS_def MAX_LINE_def show_int_0 sh c_int_def
          numeral_3_eq_3 numeral_2_eq_2)
qed


lemma job_0_raced: "find_job_by_id 0 raced = Some 1"
proof -
  have "jobs raced ! 0 = \<lparr>job_id = 2, pid = 5000, state = STOPPED, command = ''(foreground job)''\<rparr>"
       "jobs raced ! 1 = zero_job" "job_count raced = 2"
    by (simp_all add: raced_def)
  then show ?thesis
    by (simp add: find_job_by_id_def find_from_Some less_Suc_eq zero_job_def numeral_2_eq_2)
qed

lemma fg_0_raced:
  "builtin_fg 0 (quiet (Failed ECHILD)) raced =
     Return 1 (raced\<lparr>out := out raced @ [''Bringing job [0] to foreground: \<newline>''],
                     job_count := 1\<rparr>)"
proof -
  have j: "jobs raced ! 0 = \<lparr>job_id = 2, pid = 5000, state = STOPPED, command = ''(foreground job)''\<rparr>"
       "jobs raced ! Suc 0 = zero_job" "job_count raced = Suc (Suc 0)"
    by (simp_all add: raced_def)
  have f: "find_from (\<lambda>j. pid j = 0) (jobs raced) (Suc (Suc 0)) 0 = Some 1"
    using j by (simp add: find_from_Some less_Suc_eq zero_job_def)
  have sh: "shift_jobs (Suc 0) (Suc (Suc 0)) js = js" for js :: "job_t list"
    by (simp add: shift_jobs.simps)
  have "builtin_fg 0 (quiet (Failed ECHILD)) raced =
     Return 1 (raced\<lparr>out := out raced @ [''Bringing job [0] to foreground: \<newline>''],
                     fg_pid := 0, job_count := 1\<rparr>)"
    using job_0_raced j f
    by (simp add: builtin_fg_def fg_announce_def printf_def wait_for_fg_def wait_begin_def
          wait_end_def quiet_def remove_job_def sh zero_job_def show_int_0 Let_def)
  also have "\<dots> =
     Return 1 (raced\<lparr>out := out raced @ [''Bringing job [0] to foreground: \<newline>''],
                     job_count := 1\<rparr>)"
    by (simp add: raced_def)
  finally show ?thesis .
qed

lemma race_in_spawned_3:
  "execute_command [''sleep'', ''5''] True reaped_in_add_job (spawned 3) = Return 1 raced_3"
  "table raced_3 = [sleeper 1, sleeper 2,
          \<lparr>job_id = 3, pid = 5003, state = RUNNING, command = ''sleep 5 ''\<rparr>]"
  "next_job_id raced_3 = 5" "assigned raced_3 = [1, 2, 3, 4]"
proof -
  have three: "[0..<3] = [0, Suc 0, Suc (Suc 0)]" by (simp add: upt_rec)
  have rep: "replicate (MAX_JOBS - 3) zero_job = zero_job # replicate 96 zero_job"
    using replicate_Suc [of 96 zero_job] by (simp add: MAX_JOBS_def)
  define s1 where "s1 = add_job_193 (spawned 3)"
  have s1: "jobs s1 = [sleeper 0, sleeper 1, sleeper 2, zero_job\<lparr>job_id := 4\<rparr>] @ replicate 96 zero_job"
      "job_count s1 = 3" "next_job_id s1 = 5" "assigned s1 = [1, 2, 3, 4]"
    by (simp_all add: s1_def add_job_193_def spawned_def three rep c_int_def sleeper_def)
  define s2 where "s2 = deliver (Child [(5000, Exited)]) s1"
  have found: "find_from (\<lambda>j. pid j = 5000) (jobs s1) 3 0 = Some 0"
    by (simp add: find_from_Some s1 sleeper_def)
  have sh: "shift_jobs 0 3 (a # b # c # js) = b # c # c # js" for a b c and js :: "job_t list"
    by (simp add: shift_jobs.simps)
  have s2: "jobs s2 = [sleeper 1, sleeper 2, sleeper 2, zero_job\<lparr>job_id := 4\<rparr>] @ replicate 96 zero_job"
      "job_count s2 = 2" "next_job_id s2 = 5" "assigned s2 = [1, 2, 3, 4]"
    using found
    by (simp_all add: s2_def reap_def find_job_by_pid_def remove_job_def printf_def s1 sh
          sleeper_def)
  define s3 where "s3 = add_job_197 (add_job_196 ''sleep 5 '' (add_job_195 RUNNING (add_job_194 5003 s2)))"
  have s3: "table s3 = [sleeper 1, sleeper 2,
          \<lparr>job_id = 3, pid = 5003, state = RUNNING, command = ''sleep 5 ''\<rparr>]"
      "next_job_id s3 = 5" "assigned s3 = [1, 2, 3, 4]"
    by (simp_all add: s3_def add_job_lines s2 table_def sleeper_def MAX_LINE_def numeral_3_eq_3)
  have c: "job_count (spawned 3) < MAX_JOBS" by (simp add: spawned_def MAX_JOBS_def)
  have "add_job_signals (in_add_job reaped_in_add_job) 5003 ''sleep 5 '' RUNNING (spawned 3) = s3"
    using c by (simp add: add_job_signals_def reaped_in_add_job_def gap_def s3_def s2_def s1_def)
  then have e: "execute_command [''sleep'', ''5''] True reaped_in_add_job (spawned 3) =
      Return 1 (printf (''['' @ show_int (job_id (jobs s3 ! (job_count s3 - 1))) @ ''] '' @
                        show_int 5003 @ '' '' @ ''sleep 5 '' @ ''\<newline>'') s3)"
    by (simp add: execute_command_def Let_def reaped_in_add_job_def forked_def)
  then have r: "raced_3 = printf (''['' @ show_int (job_id (jobs s3 ! (job_count s3 - 1))) @ ''] '' @
                        show_int 5003 @ '' '' @ ''sleep 5 '' @ ''\<newline>'') s3"
    by (simp add: raced_3_def state_after_def)
  show "execute_command [''sleep'', ''5''] True reaped_in_add_job (spawned 3) = Return 1 raced_3"
    unfolding r by (rule e)
  show "table raced_3 = [sleeper 1, sleeper 2,
          \<lparr>job_id = 3, pid = 5003, state = RUNNING, command = ''sleep 5 ''\<rparr>]"
    "next_job_id raced_3 = 5" "assigned raced_3 = [1, 2, 3, 4]"
    using s3 unfolding r by (simp_all add: printf_def table_def)
qed

section \<open>The claims of the specification\<close>

lemma vars_wait_idle:
  "deliveries k = [] \<Longrightarrow> jobs (wait_for_fg p k s) = jobs s \<and> job_count (wait_for_fg p k s) = job_count s"
  by (simp add: wait_for_fg_def wait_end_def wait_begin_def perror_def split: wait_result.splits)

text \<open>
  Claim C1. What the \<open>fg\<close> branch does when no handler runs during the wait: whatever
  \<open>waitpid\<close> returns, a stopped child included, \<open>remove_job\<close> deletes the entry of the job.
  (The pids of the table are taken to be distinct, as they are for live children.)
\<close>

theorem fg_always_removes:
  assumes "job_count s \<le> length (jobs s)" and "distinct (map pid (table s))"
    and "find_job_by_id (atoi tok) s = Some i" and "deliveries k = []"
  shows "\<exists>s'. builtin_command (''fg'' # tok # rest) k s = Return 1 s' \<and>
              table s' = take i (table s) @ drop (Suc i) (table s)"
proof -
  define s1 where "s1 = fg_announce (atoi tok) i s"
  define s2 where "s2 = wait_for_fg (pid (jobs s1 ! i)) k s1"
  have j1: "jobs s1 = jobs s" "job_count s1 = job_count s"
    by (simp_all add: s1_def fg_announce_def printf_def kill_def)
  have j2: "jobs s2 = jobs s" "job_count s2 = job_count s"
    using vars_wait_idle [OF assms(4), of "pid (jobs s1 ! i)" s1] j1 by (simp_all add: s2_def)
  have i: "i < job_count s" using assms(3) by (rule find_job_by_id_bound)
  have "find_from (\<lambda>j. pid j = pid (jobs s ! i)) (jobs s) (job_count s) 0 = Some i"
    using assms(1,2) i by (intro find_from_distinct) (simp_all add: table_def)
  then have "table (remove_job (pid (jobs s2 ! i)) s2) = take i (table s2) @ drop (Suc i) (table s2)"
    using assms(1) j2 by (intro table_remove_job_found) simp_all
  moreover have "table s2 = table s" using j2 by (simp add: table_def)
  moreover have "builtin_command (''fg'' # tok # rest) k s = Return 1 (remove_job (pid (jobs s2 ! i)) s2)"
    using assms(3) by (simp add: builtin_command_def builtin_fg_def Let_def s1_def s2_def)
  ultimately show ?thesis by simp
qed

theorem fg_always_removes_witness:
  "job_count three_jobs \<le> length (jobs three_jobs) \<and>
   distinct (map pid (table three_jobs)) \<and>
   find_job_by_id (atoi ''2'') three_jobs = Some 1 \<and>
   state (jobs three_jobs ! 1) = STOPPED \<and>
   deliveries (quiet (Status Stopped)) = [] \<and>
   (\<exists>s'. builtin_command [''fg'', ''2''] (quiet (Status Stopped)) three_jobs = Return 1 s' \<and>
         table s' = [job1, job3])"
proof -
  have h: "job_count three_jobs \<le> length (jobs three_jobs)"
    by (simp add: three_jobs_def)
  have d: "distinct (map pid (table three_jobs))"
    by (simp add: table_three_jobs job1_def job2_def job3_def)
  have f: "find_job_by_id (atoi ''2'') three_jobs = Some 1"
    by (simp add: atoi_2 find_job_by_id_def find_from_Some three_jobs_def job1_def job2_def
          job3_def less_Suc_eq)
  have q: "deliveries (quiet (Status Stopped)) = []"
    by (simp add: quiet_def)
  have st: "state (jobs three_jobs ! 1) = STOPPED"
    by (simp add: three_jobs_def job2_def)
  show ?thesis
    using h d f q st fg_always_removes [OF h d f q, of "[]"]
    by (simp add: table_three_jobs)
qed

text \<open>
  Claim C2, as the code has it. \<open>wait_for_fg\<close> calls \<open>waitpid\<close> once and never again:
  when the call fails with \<open>ECHILD\<close> nothing is written to standard error during the
  whole wait; when it fails with any other \<open>errno\<close>, \<open>EINTR\<close> included, \<open>perror\<close>
  reports it once under the prefix \<open>waitpid error\<close>; in every case the wait is over and
  \<open>fg_pid\<close> is 0 again.
\<close>

theorem wait_for_fg_reports:
  "err (wait_for_fg p k s) =
     (case waitpid_ret k of
        Status st \<Rightarrow> err s
      | Failed e \<Rightarrow> if e = ECHILD then err s else err s @ [(''waitpid error'', e)]) \<and>
   fg_pid (wait_for_fg p k s) = 0"
  by (simp add: wait_for_fg_def wait_end_def wait_begin_def perror_def
        split: wait_result.splits)

text \<open>
  The claim as written fails: an interrupted \<open>waitpid\<close> is reported on standard error,
  and the wait ends there.
\<close>

theorem wait_for_fg_eintr_counterexample:
  "err (wait_for_fg 4001 (quiet (Failed EINTR)) init_shell) = [(''waitpid error'', EINTR)] \<and>
   fg_pid (wait_for_fg 4001 (quiet (Failed EINTR)) init_shell) = 0"
  by (simp add: wait_for_fg_def wait_end_def wait_begin_def perror_def quiet_def init_shell_def)

text \<open>
  Claim C3, as the code has it. A background spawn with the table already holding
  \<open>MAX_JOBS\<close> entries: \<open>add_job\<close> prints \<open>Job queue full\<close> and inserts nothing, so the
  array, the count and the id counter are unchanged; the caller sends no signal at all,
  so the child it has forked is neither tracked nor terminated. (One further line of
  output follows the report.)
\<close>

theorem spawn_on_full_table:
  assumes "job_count s = MAX_JOBS" and "args \<noteq> []" and "0 < fork_ret k"
  shows "\<exists>s' line. execute_command args True k s = Return 1 s' \<and>
           out s' = out s @ [''Job queue full\<newline>'', line] \<and>
           job_count s' = MAX_JOBS \<and> jobs s' = jobs s \<and>
           next_job_id s' = next_job_id s \<and> sent s' = sent s"
proof -
  obtain a0 rest where args: "args = a0 # rest"
    using assms(2) by (cases args) auto
  show ?thesis
    using assms(1,3)
    by (simp add: args execute_command_def add_job_signals_def printf_def)
qed

theorem spawn_on_full_table_witness:
  "job_count full_table = MAX_JOBS \<and> [''sleep'', ''7''] \<noteq> [] \<and> 0 < fork_ret (forked 7000) \<and>
   (\<exists>s' line. execute_command [''sleep'', ''7''] True (forked 7000) full_table = Return 1 s' \<and>
      out s' = out full_table @ [''Job queue full\<newline>'', line] \<and>
      job_count s' = MAX_JOBS \<and> jobs s' = jobs full_table \<and>
      next_job_id s' = next_job_id full_table \<and> sent s' = sent full_table)"
proof -
  have h: "job_count full_table = MAX_JOBS" by (rule full_table_fields)
  have a: "[''sleep'', ''7''] \<noteq> []" by simp
  have f: "0 < fork_ret (forked 7000)" by (simp add: forked_def)
  show ?thesis
    using h a f spawn_on_full_table [OF h a f] by blast
qed

text \<open>
  The claim as written fails on the full table that a hundred background commands
  produce: the child 7000 forked for the next one receives no signal and has no entry.
\<close>

theorem spawn_on_full_table_counterexample:
  "reachable_calm Prompt full_table \<and> job_count full_table = MAX_JOBS \<and>
   (\<exists>s'. execute_command [''sleep'', ''7''] True (forked 7000) full_table = Return 1 s' \<and>
         sent s' = [] \<and> 7000 \<notin> pid ` set (table s'))"
proof -
  have "sent (printf x (add_job 7000 c RUNNING full_table)) = []" for x c
    by (simp add: add_job_def printf_def full_table_fields)
  moreover have "table (printf x (add_job 7000 c RUNNING full_table)) = table full_table" for x c
    by (simp add: add_job_def printf_def full_table_fields table_def)
  ultimately show ?thesis
    using pid_full_table reachable_full_table
    by (simp add: execute_command_def forked_def Let_def full_table_fields add_job_signals_calm)
qed

text \<open>
  Claim C4, as the code has it. In every state of a calm execution in which fewer than
  \<open>INT_MAX\<close> jobs have been inserted so far (so that \<open>next_job_id++\<close> has not overflowed),
  the job ids of the table grow strictly along the table, so they are pairwise distinct,
  and each is below \<open>next_job_id\<close>; the ids handed out so far (\<open>assigned\<close>, oldest first)
  grow strictly, lie below \<open>next_job_id\<close>, which is one more than their number, and
  include those of the table; and an insertion that finds a free slot gives the new entry
  the id \<open>next_job_id\<close>, above every id handed out before, whether or not the job that
  had it is still in the table.
\<close>

theorem job_ids_never_reused:
  assumes "reachable_calm c s" and "few_jobs s"
  shows "sorted_wrt (<) (map job_id (table s)) \<and>
         distinct (map job_id (table s)) \<and>
         list_all (\<lambda>j. job_id j < next_job_id s) (table s) \<and>
         sorted_wrt (<) (assigned s) \<and>
         list_all (\<lambda>a. a < next_job_id s) (assigned s) \<and>
         next_job_id s = 1 + int (length (assigned s)) \<and>
         set (map job_id (table s)) \<subseteq> set (assigned s) \<and>
         (job_count s < MAX_JOBS \<longrightarrow>
            (\<exists>j. table (add_job p cmd st s) = table s @ [j] \<and>
                  job_id j = next_job_id s \<and>
                  assigned (add_job p cmd st s) = assigned s @ [job_id j] \<and>
                  list_all (\<lambda>a. a < job_id j) (assigned s)))"
proof -
  have inv: "table_inv s" using assms(1) by (simp add: reachable_inv)
  then have ok: "ids_ok s" using assms(2) by (simp add: table_inv_def)
  then have srt: "sorted_wrt (<) (map job_id (table s))" by (simp add: ids_ok_def)
  then have "distinct (map job_id (table s))"
    by (simp add: strict_sorted_iff)
  moreover have "job_count s < MAX_JOBS \<longrightarrow>
            (\<exists>j. table (add_job p cmd st s) = table s @ [j] \<and>
                  job_id j = next_job_id s \<and>
                  assigned (add_job p cmd st s) = assigned s @ [job_id j] \<and>
                  list_all (\<lambda>a. a < job_id j) (assigned s))"
  proof
    assume free: "job_count s < MAX_JOBS"
    have len: "length (jobs s) = MAX_JOBS" using inv by (simp add: table_inv_def)
    have "assigned (add_job p cmd st s) = assigned s @ [next_job_id s]"
      using free len by (simp add: add_job_free)
    moreover have "list_all (\<lambda>a. a < next_job_id s) (assigned s)"
      using ok by (simp add: ids_ok_def list_all_iff)
    ultimately show "\<exists>j. table (add_job p cmd st s) = table s @ [j] \<and>
                  job_id j = next_job_id s \<and>
                  assigned (add_job p cmd st s) = assigned s @ [job_id j] \<and>
                  list_all (\<lambda>a. a < job_id j) (assigned s)"
      using table_add_job [OF len free, of p cmd st] by simp
  qed
  moreover have "next_job_id s = 1 + int (length (assigned s))"
    using ok unfolding ids_ok_def by simp
  moreover have "list_all (\<lambda>j. job_id j < next_job_id s) (table s)"
      "list_all (\<lambda>a. a < next_job_id s) (assigned s)"
      "sorted_wrt (<) (assigned s)" "set (map job_id (table s)) \<subseteq> set (assigned s)"
    using ok unfolding ids_ok_def list_all_iff by simp_all
  ultimately show ?thesis
    using srt by blast
qed

theorem job_ids_never_reused_witness:
  "reachable_calm Prompt first_done \<and> few_jobs first_done \<and>
   map job_id (table first_done) = [2] \<and> next_job_id first_done = 3 \<and>
   assigned first_done = [1, 2] \<and> job_count first_done < MAX_JOBS \<and>
   (\<exists>j. table (add_job 5002 ''sleep 5 '' RUNNING first_done) = table first_done @ [j] \<and>
      job_id j = 3 \<and>
      assigned (add_job 5002 ''sleep 5 '' RUNNING first_done) = [1, 2, 3])"
proof -
  have c: "job_count first_done < MAX_JOBS" by (simp add: first_done_fields MAX_JOBS_def)
  have i: "map job_id (table first_done) = [2]" by (simp add: first_done_fields sleeper_def)
  have f: "few_jobs first_done" by (simp add: few_jobs_def first_done_fields INT_MAX_def)
  show ?thesis
    using c i f reachable_first_done
      job_ids_never_reused [OF reachable_first_done f, of 5002 "''sleep 5 ''" RUNNING]
    by (auto simp: first_done_fields)
qed

text \<open>
  The claim as written fails in two ways. With the three jobs of \<open>spawned 3\<close> in the
  table, \<open>sleep 5 &\<close> is entered and the first job exits while \<open>add_job\<close> is between lines
  193 and 194: the handler moves the entries down, the rest of \<open>add_job\<close> fills the slot
  that still holds a copy of job 3, and the table has two entries with the job id 3. And
  after \<open>INT_MAX - 1\<close> jobs that have come and gone, the next job gets the id \<open>INT_MAX\<close>
  and the counter overflows: in the compiled code it is \<open>INT_MIN\<close>, below the id in the
  table.
\<close>

theorem job_ids_never_reused_counterexample:
  "reachable_calm Prompt (spawned 3) \<and> map job_id (table (spawned 3)) = [1, 2, 3] \<and>
   execute_command [''sleep'', ''5''] True reaped_in_add_job (spawned 3) = Return 1 raced_3 \<and>
   map job_id (table raced_3) = [2, 3, 3] \<and> map pid (table raced_3) = [5001, 5002, 5003] \<and>
   reachable_calm Prompt overflowed \<and> length (assigned overflowed) = 2147483647 \<and>
   map job_id (table overflowed) = [2147483647] \<and> next_job_id overflowed = - 2147483648"
proof -
  have three: "[0..<3] = [0, Suc 0, Suc (Suc 0)]" by (simp add: upt_rec)
  have r: "reachable_calm Prompt (spawned 3)"
    by (rule reachable_spawned) (simp add: MAX_JOBS_def)
  have t: "map job_id (table (spawned 3)) = [1, 2, 3]"
    by (simp add: table_spawned MAX_JOBS_def three sleeper_def)
  have race: "map job_id (table raced_3) = [2, 3, 3]" "map pid (table raced_3) = [5001, 5002, 5003]"
    by (simp_all add: race_in_spawned_3(2) sleeper_def)
  show ?thesis
    using r t race race_in_spawned_3(1) overflowed_fields by simp
qed

text \<open>
  Claim C5, as the code has it. In a round of the drain for a stopped child \<open>p\<close> that has
  no entry, with a free slot in the table: the child is appended with the next job id,
  state \<open>STOPPED\<close> and the label \<open>(foreground job)\<close>, and the notice printed names that new
  id twice, followed by the prompt.
\<close>

theorem stopped_child_is_promoted:
  assumes "length (jobs s) = MAX_JOBS" and "job_count s < MAX_JOBS"
    and "0 < p" and "p \<notin> pid ` set (table s)"
  shows "\<exists>s'. sigchld_handler ((p, Stopped) # evs) s = sigchld_handler evs s' \<and>
           table s' = table s @ [\<lparr>job_id = next_job_id s, pid = p, state = STOPPED,
                                  command = ''(foreground job)''\<rparr>] \<and>
           next_job_id s' = c_int (next_job_id s + 1) \<and>
           out s' = out s @
             [''\<newline>['' @ show_int (next_job_id s) @ ''] Stopped (use 'fg '' @
                show_int (next_job_id s) @ ''' to resume)\<newline>'', ''shell> '']"
proof -
  have none: "find_job_by_pid p s = None"
    using assms by (simp add: find_job_by_pid_None)
  have tab: "table (add_job p ''(foreground job)'' STOPPED s) =
      table s @ [\<lparr>job_id = next_job_id s, pid = p, state = STOPPED,
                  command = ''(foreground job)''\<rparr>]"
    using table_add_job [OF assms(1,2), of p "''(foreground job)''" STOPPED]
    by (simp add: MAX_LINE_def)
  have free: "job_count s < MAX_JOBS" "job_count s < length (jobs s)"
    using assms(1,2) by simp_all
  have last: "job_id (jobs (add_job p ''(foreground job)'' STOPPED s) !
                (job_count (add_job p ''(foreground job)'' STOPPED s) - 1)) = next_job_id s"
    unfolding add_job_free [OF free] using free(2) by simp
  have flds: "next_job_id (add_job p ''(foreground job)'' STOPPED s) = c_int (next_job_id s + 1)"
      "out (add_job p ''(foreground job)'' STOPPED s) = out s"
    unfolding add_job_free [OF free] by simp_all
  let ?s' = "reap p Stopped s"
  have "sigchld_handler ((p, Stopped) # evs) s = sigchld_handler evs ?s'"
    using assms(3) by simp
  moreover have "table ?s' = table s @ [\<lparr>job_id = next_job_id s, pid = p, state = STOPPED,
                                  command = ''(foreground job)''\<rparr>]"
    using tab by (simp add: reap_def none Let_def printf_def table_def)
  moreover have "next_job_id ?s' = c_int (next_job_id s + 1)"
    using flds by (simp add: reap_def none Let_def printf_def)
  moreover have "out ?s' = out s @
             [''\<newline>['' @ show_int (next_job_id s) @ ''] Stopped (use 'fg '' @
                show_int (next_job_id s) @ ''' to resume)\<newline>'', ''shell> '']"
    using flds last by (simp add: reap_def none Let_def printf_def promoted_notice_def)
  ultimately show ?thesis by blast
qed

theorem stopped_child_is_promoted_witness:
  "length (jobs three_jobs) = MAX_JOBS \<and> job_count three_jobs < MAX_JOBS \<and> (0::int) < 7000 \<and>
   7000 \<notin> pid ` set (table three_jobs) \<and>
   (\<exists>s'. sigchld_handler [(7000, Stopped)] three_jobs = s' \<and>
      table s' = [job1, job2, job3,
        \<lparr>job_id = 4, pid = 7000, state = STOPPED, command = ''(foreground job)''\<rparr>] \<and>
      out s' = [''\<newline>[4] Stopped (use 'fg 4' to resume)\<newline>'', ''shell> ''])"
proof -
  have l: "length (jobs three_jobs) = MAX_JOBS" by (simp add: three_jobs_def MAX_JOBS_def)
  have c: "job_count three_jobs < MAX_JOBS" by (simp add: three_jobs_def MAX_JOBS_def)
  have p: "(0::int) < 7000" by simp
  have m: "7000 \<notin> pid ` set (table three_jobs)"
    by (simp add: table_three_jobs job1_def job2_def job3_def)
  have f: "next_job_id three_jobs = 4" "out three_jobs = []" by (simp_all add: three_jobs_def)
  show ?thesis
    using l c m stopped_child_is_promoted [OF l c p m, of "[]"]
    by (simp add: f table_three_jobs show_int_4)
qed

text \<open>
  The claim as written fails when the table is full: the stopped child 7000 gets no
  entry (\<open>add_job\<close> reports \<open>Job queue full\<close>), and the notice printed names job 100, the
  last entry of the table, which has not stopped.
\<close>

theorem stopped_child_full_table_counterexample:
  "reachable_calm Prompt full_table \<and> 7000 \<notin> pid ` set (table full_table) \<and>
   table (sigchld_handler [(7000, Stopped)] full_table) = table full_table \<and>
   out (sigchld_handler [(7000, Stopped)] full_table) =
     out full_table @ [''Job queue full\<newline>'', promoted_notice 100, ''shell> '']"
proof -
  have none: "find_job_by_pid 7000 full_table = None"
    using pid_full_table by (simp add: find_job_by_pid_None full_table_fields)
  have add: "add_job 7000 c STOPPED full_table = printf ''Job queue full\<newline>'' full_table" for c
    by (simp add: add_job_def full_table_fields)
  have "jobs full_table ! (MAX_JOBS - 1) = sleeper (MAX_JOBS - 1)"
    by (simp add: full_table_def spawned_def MAX_JOBS_def nth_append)
  then have last: "job_id (jobs full_table ! (job_count full_table - 1)) = 100"
    by (simp add: full_table_fields sleeper_def MAX_JOBS_def)
  show ?thesis
    using pid_full_table last reachable_full_table
    by (simp add: reap_def none add Let_def printf_def table_def)
qed








text \<open>
  Claim C8. When the job id read from the argument has no entry in the table, \<open>fg\<close>, \<open>bg\<close>
  and \<open>kill\<close> each print \<open>Job [<id>] not found\<close> and return with nothing else changed:
  the whole state is the old one with that line added to the output. The job id is the
  \<open>int\<close> that \<open>atoi\<close> gives for the token, so for a number out of the range of \<open>int\<close> it
  is the number wrapped around (\<open>4294967301\<close> is job 5).
\<close>

theorem unknown_job_id_not_found:
  assumes "job_count s \<le> length (jobs s)" and "atoi tok \<notin> job_id ` set (table s)"
  shows "builtin_command (''fg'' # tok # rest) k s =
           Return 1 (s\<lparr>out := out s @ [''Job ['' @ show_int (atoi tok) @ ''] not found\<newline>'']\<rparr>) \<and>
         builtin_command (''bg'' # tok # rest) k s =
           Return 1 (s\<lparr>out := out s @ [''Job ['' @ show_int (atoi tok) @ ''] not found\<newline>'']\<rparr>) \<and>
         builtin_command (''kill'' # tok # rest) k s =
           Return 1 (s\<lparr>out := out s @ [''Job ['' @ show_int (atoi tok) @ ''] not found\<newline>'']\<rparr>)"
proof -
  have "find_job_by_id (atoi tok) s = None"
    using assms by (simp add: find_job_by_id_None)
  then show ?thesis
    by (simp add: builtin_command_def builtin_fg_def builtin_bg_def builtin_kill_def
          not_found_def printf_def)
qed

theorem unknown_job_id_not_found_witness:
  "job_count three_jobs \<le> length (jobs three_jobs) \<and>
   atoi ''5'' \<notin> job_id ` set (table three_jobs) \<and>
   builtin_command [''fg'', ''5''] (quiet (Status Exited)) three_jobs =
     Return 1 (three_jobs\<lparr>out := [''Job [5] not found\<newline>'']\<rparr>) \<and>
   builtin_command [''bg'', ''5''] (quiet (Status Exited)) three_jobs =
     Return 1 (three_jobs\<lparr>out := [''Job [5] not found\<newline>'']\<rparr>) \<and>
   builtin_command [''kill'', ''5''] (quiet (Status Exited)) three_jobs =
     Return 1 (three_jobs\<lparr>out := [''Job [5] not found\<newline>'']\<rparr>) \<and>
   atoi ''4294967301'' = 5 \<and>
   builtin_command [''kill'', ''4294967301''] (quiet (Status Exited)) three_jobs =
     Return 1 (three_jobs\<lparr>out := [''Job [5] not found\<newline>'']\<rparr>)"
proof -
  have h: "job_count three_jobs \<le> length (jobs three_jobs)"
    by (simp add: three_jobs_def)
  have m: "atoi ''5'' \<notin> job_id ` set (table three_jobs)"
    by (simp add: atoi_5 three_jobs_def table_def job1_def job2_def job3_def)
  have w: "atoi ''4294967301'' = 5"
    by (simp add: atoi_eval)
  have m': "atoi ''4294967301'' \<notin> job_id ` set (table three_jobs)"
    using m by (simp add: w atoi_5)
  have o: "out three_jobs = []" by (simp add: three_jobs_def)
  show ?thesis
    using h m unknown_job_id_not_found [OF h m, of "[]" "quiet (Status Exited)"]
      unknown_job_id_not_found [OF h m', of "[]" "quiet (Status Exited)"]
    by (simp add: atoi_5 w show_int_5 o)
qed

text \<open>
  Claim C9. In every table state (the first \<open>job_count\<close> slots of the array), \<open>remove_job\<close>
  with a pid that is present deletes exactly one entry, the first one with that pid, and
  keeps the entries before and after it in their order; with a pid that is not present
  it changes nothing.
\<close>

theorem remove_job_exactly_one:
  assumes "job_count s \<le> length (jobs s)"
  shows "(p \<notin> pid ` set (table s) \<longrightarrow> remove_job p s = s) \<and>
         (p \<in> pid ` set (table s) \<longrightarrow>
            (\<exists>xs j ys. table s = xs @ j # ys \<and> pid j = p \<and> p \<notin> pid ` set xs \<and>
               table (remove_job p s) = xs @ ys))"
proof (cases "find_from (\<lambda>j. pid j = p) (jobs s) (job_count s) 0")
  case None
  then have "p \<notin> pid ` set (table s)"
    using assms by (simp add: pid_in_table find_from_None)
  with None show ?thesis by (simp add: remove_job_def)
next
  case (Some i)
  then have i: "i < job_count s" "pid (jobs s ! i) = p" "\<forall>m < i. pid (jobs s ! m) \<noteq> p"
    by (simp_all add: find_from_Some)
  have len: "length (table s) = job_count s" using assms by (simp add: table_def)
  have split: "table s = take i (table s) @ (table s ! i) # drop (Suc i) (table s)"
    using i(1) len by (simp add: id_take_nth_drop)
  have "pid (table s ! i) = p" using i by (simp add: table_def)
  moreover have "p \<notin> pid ` set (take i (table s))"
  proof
    assume "p \<in> pid ` set (take i (table s))"
    then obtain x where "x \<in> set (take i (table s))" "pid x = p" by auto
    then obtain m where "m < i" "table s ! m = x"
      using i(1) len by (auto simp: in_set_take_nth)
    then show False using i \<open>pid x = p\<close> by (auto simp: table_def)
  qed
  moreover have "table (remove_job p s) = take i (table s) @ drop (Suc i) (table s)"
    using assms Some by (rule table_remove_job_found)
  ultimately have "\<exists>xs j ys. table s = xs @ j # ys \<and> pid j = p \<and> p \<notin> pid ` set xs \<and>
      table (remove_job p s) = xs @ ys"
    using split by (intro exI [of _ "take i (table s)"] exI [of _ "table s ! i"]
        exI [of _ "drop (Suc i) (table s)"] conjI)
  moreover have "p \<in> pid ` set (table s)"
    using assms i by (auto simp: pid_in_table)
  ultimately show ?thesis by blast
qed

theorem remove_job_exactly_one_witness:
  "job_count three_jobs \<le> length (jobs three_jobs) \<and>
   4002 \<in> pid ` set (table three_jobs) \<and>
   (\<exists>xs j ys. table three_jobs = xs @ j # ys \<and> pid j = 4002 \<and> 4002 \<notin> pid ` set xs \<and>
      table (remove_job 4002 three_jobs) = xs @ ys) \<and>
   4009 \<notin> pid ` set (table three_jobs) \<and> remove_job 4009 three_jobs = three_jobs"
proof -
  have h: "job_count three_jobs \<le> length (jobs three_jobs)"
    by (simp add: three_jobs_def)
  have m: "4002 \<in> pid ` set (table three_jobs)"
    by (simp add: three_jobs_def table_def job1_def job2_def job3_def)
  have n: "4009 \<notin> pid ` set (table three_jobs)"
    by (simp add: three_jobs_def table_def job1_def job2_def job3_def)
  show ?thesis
    using h m n remove_job_exactly_one [OF h, of 4002] remove_job_exactly_one [OF h, of 4009]
    by blast
qed

text \<open>
  Claim C10, as the code has it. When \<open>atoi\<close> reads the argument of \<open>fg\<close>, \<open>bg\<close> or \<open>kill\<close>
  as 0, which it does for every token without digits to read (and for a number that
  wraps around to 0, such as \<open>4294967296\<close>), the command looks for job 0; in a calm
  execution in which fewer than \<open>INT_MAX\<close> jobs have been inserted so far the job ids of
  the table start at 1, so it prints \<open>Job [0] not found\<close> and changes nothing else.
\<close>

theorem argument_without_number:
  assumes "reachable_calm c s" and "few_jobs s" and "no_digits tok \<or> atoi tok = 0"
  shows "atoi tok = 0 \<and>
         builtin_command (''fg'' # tok # rest) k s =
           Return 1 (s\<lparr>out := out s @ [''Job [0] not found\<newline>'']\<rparr>) \<and>
         builtin_command (''bg'' # tok # rest) k s =
           Return 1 (s\<lparr>out := out s @ [''Job [0] not found\<newline>'']\<rparr>) \<and>
         builtin_command (''kill'' # tok # rest) k s =
           Return 1 (s\<lparr>out := out s @ [''Job [0] not found\<newline>'']\<rparr>)"
proof -
  have z: "atoi tok = 0" using assms(3) atoi_no_digits by blast
  have inv: "table_inv s" using assms(1) by (simp add: reachable_inv)
  then have le: "job_count s \<le> length (jobs s)" by (simp add: table_inv_def)
  have "ids_ok s" using inv assms(2) by (simp add: table_inv_def)
  then have "\<forall>j \<in> set (table s). 1 \<le> job_id j"
    by (simp add: ids_ok_def list_all_iff)
  then have "atoi tok \<notin> job_id ` set (table s)" using z by auto
  then have "find_job_by_id (atoi tok) s = None"
    using le by (simp add: find_job_by_id_None)
  then show ?thesis
    using z
    by (simp add: builtin_command_def builtin_fg_def builtin_bg_def builtin_kill_def
          not_found_def printf_def show_int_0)
qed

theorem argument_without_number_witness:
  "reachable_calm Prompt first_done \<and> few_jobs first_done \<and>
   no_digits ''abc'' \<and> atoi ''abc'' = 0 \<and>
   builtin_command [''fg'', ''abc''] (quiet (Status Exited)) first_done =
     Return 1 (first_done\<lparr>out := out first_done @ [''Job [0] not found\<newline>'']\<rparr>) \<and>
   builtin_command [''bg'', ''abc''] (quiet (Status Exited)) first_done =
     Return 1 (first_done\<lparr>out := out first_done @ [''Job [0] not found\<newline>'']\<rparr>) \<and>
   builtin_command [''kill'', ''abc''] (quiet (Status Exited)) first_done =
     Return 1 (first_done\<lparr>out := out first_done @ [''Job [0] not found\<newline>'']\<rparr>) \<and>
   atoi ''4294967296'' = 0 \<and>
   builtin_command [''kill'', ''4294967296''] (quiet (Status Exited)) first_done =
     Return 1 (first_done\<lparr>out := out first_done @ [''Job [0] not found\<newline>'']\<rparr>)"
proof -
  have n: "no_digits ''abc''"
    by (simp add: no_digits_def isspace_def isdigit_def)
  then have d: "no_digits ''abc'' \<or> atoi ''abc'' = 0" ..
  have z: "atoi ''4294967296'' = 0" by (rule atoi_out_of_range)
  then have d': "no_digits ''4294967296'' \<or> atoi ''4294967296'' = 0" ..
  have f: "few_jobs first_done" by (simp add: few_jobs_def first_done_fields INT_MAX_def)
  show ?thesis
    using n f z reachable_first_done
      argument_without_number [OF reachable_first_done f d, of "[]" "quiet (Status Exited)"]
      argument_without_number [OF reachable_first_done f d', of "[]" "quiet (Status Exited)"]
    by blast
qed

text \<open>
  The claim as written fails for tokens that are not positive integers and yet have
  digits to read: \<open>-5\<close> is job \<open>-5\<close> in the report, and \<open>2x\<close> is job 2, which \<open>kill\<close> then
  signals. It also fails for a token without digits when the table has an entry with the
  job id 0: after the \<open>cat &\<close> during which the stopped child was reaped inside \<open>add_job\<close>,
  \<open>fg abc\<close> finds the entry of slot 1 and removes it; and once \<open>next_job_id\<close> has gone
  round all the values of an \<open>int\<close>, a job gets the id 0, and \<open>kill abc\<close> signals it.
\<close>

theorem argument_without_number_counterexample:
  "atoi ''-5'' = - 5 \<and>
   builtin_command [''fg'', ''-5''] (quiet (Status Exited)) init_shell =
     Return 1 (init_shell\<lparr>out := [''Job [-5] not found\<newline>'']\<rparr>) \<and>
   atoi ''2x'' = 2 \<and>
   builtin_command [''kill'', ''2x''] (quiet (Status Exited)) three_jobs =
     Return 1 (three_jobs\<lparr>out := [''Job [2] terminated\<newline>''], sent := [(4002, SIGKILL)]\<rparr>) \<and>
   atoi ''abc'' = 0 \<and>
   execute_command [''cat''] True stopped_in_add_job init_shell = Return 1 raced \<and>
   builtin_command [''fg'', ''abc''] (quiet (Failed ECHILD)) raced =
     Return 1 (raced\<lparr>out := out raced @ [''Bringing job [0] to foreground: \<newline>''],
                     job_count := 1\<rparr>) \<and>
   reachable_calm Prompt wrapped \<and> length (assigned wrapped) = 4294967296 \<and>
   map job_id (table wrapped) = [0] \<and>
   builtin_command [''kill'', ''abc''] (quiet (Status Exited)) wrapped =
     Return 1 (wrapped\<lparr>out := out wrapped @ [''Job [0] terminated\<newline>''],
                       sent := [(5000, SIGKILL)]\<rparr>)"
proof -
  have a: "atoi ''-5'' = - 5" "atoi ''2x'' = 2" "atoi ''abc'' = 0"
    by (simp_all add: atoi_eval)
  have s: "show_int (- 5) = ''-5''"
    by (simp add: show_int_def show_nat.simps digit_char_def)
  have n: "find_job_by_id (- 5) init_shell = None"
    by (simp add: find_job_by_id_def find_from_None init_shell_def)
  have f: "find_job_by_id 2 three_jobs = Some 1"
    by (simp add: find_job_by_id_def find_from_Some three_jobs_def job1_def job2_def
          job3_def less_Suc_eq)
  have j: "jobs three_jobs ! 1 = job2" by (simp add: three_jobs_def)
  have o: "out init_shell = []" by (simp add: init_shell_def)
  have c1: "builtin_command [''fg'', ''-5''] (quiet (Status Exited)) init_shell =
     Return 1 (init_shell\<lparr>out := [''Job [-5] not found\<newline>'']\<rparr>)"
    by (simp add: builtin_command_def builtin_fg_def a n not_found_def s printf_def o)
  have c2: "builtin_command [''kill'', ''2x''] (quiet (Status Exited)) three_jobs =
     Return 1 (three_jobs\<lparr>out := [''Job [2] terminated\<newline>''], sent := [(4002, SIGKILL)]\<rparr>)"
  proof -
    have e: "sent three_jobs = []" "out three_jobs = []" by (simp_all add: three_jobs_def)
    have p2: "pid (jobs three_jobs ! Suc 0) = 4002" by (simp add: three_jobs_def job2_def)
    have s2: "show_int 2 = ''2''"
      by (simp add: show_int_def show_nat.simps digit_char_def)
    show ?thesis
      by (simp add: builtin_command_def builtin_kill_def a f p2 e s2 printf_def kill_def)
  qed
  have c3: "builtin_command [''fg'', ''abc''] (quiet (Failed ECHILD)) raced =
     Return 1 (raced\<lparr>out := out raced @ [''Bringing job [0] to foreground: \<newline>''],
                     job_count := 1\<rparr>)"
    using fg_0_raced by (simp add: builtin_command_def a)
  have c4: "builtin_command [''kill'', ''abc''] (quiet (Status Exited)) wrapped =
     Return 1 (wrapped\<lparr>out := out wrapped @ [''Job [0] terminated\<newline>''],
                       sent := [(5000, SIGKILL)]\<rparr>)"
  proof -
    have "table wrapped \<noteq> []" by (simp add: wrapped_fields)
    then have c: "0 < job_count wrapped" by (auto simp: table_def)
    then have "jobs wrapped ! 0 = table wrapped ! 0" by (simp add: table_def)
    then have j: "job_id (jobs wrapped ! 0) = 0" "pid (jobs wrapped ! 0) = 5000"
      by (simp_all add: wrapped_fields)
    have "find_job_by_id 0 wrapped = Some 0"
      using c j by (simp add: find_job_by_id_def find_from_Some)
    then show ?thesis
      using j by (simp add: builtin_command_def builtin_kill_def a printf_def kill_def
          show_int_0 wrapped_fields)
  qed
  have i: "map job_id (table wrapped) = [0]" by (simp add: wrapped_fields)
  show ?thesis using a c1 c2 c3 c4 i raced_run wrapped_fields(1,3) by simp
qed

end
